theory Spec2Isabelle
  imports Complex_Main
begin

section \<open>JavaScript values\<close>

text \<open>
  The library computes with JavaScript numbers, which are IEEE-754 doubles. A finite
  number is modelled as a real; the three non-finite numbers and \<open>undefined\<close>, which an
  out-of-range array read returns, are values of their own, so that a division by zero,
  an overflow or a read past the end of an array is what the code makes of it and not
  what HOL makes of \<open>x / 0\<close> or \<open>xs ! i\<close>. Stored control points, the input range and
  the input value are finite numbers.
\<close>

datatype jsval = Num real | PInf | NInf | NaN | Undefined

text \<open>
  Overflow. The largest finite double is \<open>2^1024 - 2^971\<close>; an exact result of
  magnitude \<open>2^1024 - 2^970\<close> or more is rounded to an infinity. \<open>fin\<close> is the result
  of an arithmetic operation whose exact value is the given real. The rounding of a smaller
  result to the nearest double, the underflow of a tiny one to zero and the sign of zero
  are not modelled.
\<close>

definition overflowBound :: real where
  "overflowBound = 2 ^ 1024 - 2 ^ 970"

definition fin :: "real \<Rightarrow> jsval" where
  "fin a = (if overflowBound \<le> a then PInf else if a \<le> - overflowBound then NInf else Num a)"

text \<open>Unary minus, \<open>+\<close>, \<open>-\<close>, \<open>*\<close> and \<open>/\<close>; \<open>undefined\<close> converts to \<open>NaN\<close>.\<close>

fun js_neg :: "jsval \<Rightarrow> jsval" where
  "js_neg (Num a) = Num (- a)"
| "js_neg PInf = NInf"
| "js_neg NInf = PInf"
| "js_neg NaN = NaN"
| "js_neg Undefined = NaN"

fun js_add :: "jsval \<Rightarrow> jsval \<Rightarrow> jsval" where
  "js_add (Num a) (Num b) = fin (a + b)"
| "js_add (Num a) PInf = PInf"
| "js_add (Num a) NInf = NInf"
| "js_add PInf (Num b) = PInf"
| "js_add NInf (Num b) = NInf"
| "js_add PInf PInf = PInf"
| "js_add NInf NInf = NInf"
| "js_add _ _ = NaN"

definition js_sub :: "jsval \<Rightarrow> jsval \<Rightarrow> jsval" where
  "js_sub a b = js_add a (js_neg b)"

fun js_mul :: "jsval \<Rightarrow> jsval \<Rightarrow> jsval" where
  "js_mul (Num a) (Num b) = fin (a * b)"
| "js_mul (Num a) PInf = (if 0 < a then PInf else if a < 0 then NInf else NaN)"
| "js_mul (Num a) NInf = (if 0 < a then NInf else if a < 0 then PInf else NaN)"
| "js_mul PInf (Num b) = (if 0 < b then PInf else if b < 0 then NInf else NaN)"
| "js_mul NInf (Num b) = (if 0 < b then NInf else if b < 0 then PInf else NaN)"
| "js_mul PInf PInf = PInf"
| "js_mul PInf NInf = NInf"
| "js_mul NInf PInf = NInf"
| "js_mul NInf NInf = PInf"
| "js_mul _ _ = NaN"

text \<open>
  Division. Every zero divisor of this program is a difference of two equal finite numbers
  or an absolute value, that is \<open>+0\<close>, so a positive dividend gives \<open>Infinity\<close>, a negative
  one \<open>-Infinity\<close>, and \<open>0 / 0\<close> is \<open>NaN\<close>.
\<close>

fun js_div :: "jsval \<Rightarrow> jsval \<Rightarrow> jsval" where
  "js_div (Num a) (Num b) =
     (if b \<noteq> 0 then fin (a / b)
      else if 0 < a then PInf else if a < 0 then NInf else NaN)"
| "js_div (Num a) PInf = Num 0"
| "js_div (Num a) NInf = Num 0"
| "js_div PInf (Num b) = (if 0 \<le> b then PInf else NInf)"
| "js_div NInf (Num b) = (if 0 \<le> b then NInf else PInf)"
| "js_div _ _ = NaN"

text \<open>Comparisons: any comparison with \<open>NaN\<close> or \<open>undefined\<close> is false.\<close>

fun js_lt :: "jsval \<Rightarrow> jsval \<Rightarrow> bool" where
  "js_lt (Num a) (Num b) = (a < b)"
| "js_lt (Num a) PInf = True"
| "js_lt NInf (Num b) = True"
| "js_lt NInf PInf = True"
| "js_lt _ _ = False"

fun js_le :: "jsval \<Rightarrow> jsval \<Rightarrow> bool" where
  "js_le (Num a) (Num b) = (a \<le> b)"
| "js_le (Num a) PInf = True"
| "js_le NInf (Num b) = True"
| "js_le NInf PInf = True"
| "js_le PInf PInf = True"
| "js_le NInf NInf = True"
| "js_le _ _ = False"

definition js_gt :: "jsval \<Rightarrow> jsval \<Rightarrow> bool" where
  "js_gt a b = js_lt b a"

definition js_ge :: "jsval \<Rightarrow> jsval \<Rightarrow> bool" where
  "js_ge a b = js_le b a"

text \<open>Strict equality \<open>===\<close>: \<open>NaN\<close> is not equal to itself.\<close>

fun js_eq :: "jsval \<Rightarrow> jsval \<Rightarrow> bool" where
  "js_eq (Num a) (Num b) = (a = b)"
| "js_eq PInf PInf = True"
| "js_eq NInf NInf = True"
| "js_eq Undefined Undefined = True"
| "js_eq _ _ = False"

text \<open>
  \<open>Math.ceil\<close>, \<open>Math.abs\<close> and \<open>Math.round\<close>. \<open>Math.round\<close> rounds to the nearest
  integer and a tie towards \<open>+Infinity\<close>: it is \<open>floor (x + 1/2)\<close>.
\<close>

fun Math_ceil :: "jsval \<Rightarrow> jsval" where
  "Math_ceil (Num a) = Num (of_int \<lceil>a\<rceil>)"
| "Math_ceil PInf = PInf"
| "Math_ceil NInf = NInf"
| "Math_ceil NaN = NaN"
| "Math_ceil Undefined = NaN"

fun Math_abs :: "jsval \<Rightarrow> jsval" where
  "Math_abs (Num a) = Num \<bar>a\<bar>"
| "Math_abs PInf = PInf"
| "Math_abs NInf = PInf"
| "Math_abs NaN = NaN"
| "Math_abs Undefined = NaN"

fun Math_round :: "jsval \<Rightarrow> jsval" where
  "Math_round (Num a) = Num (of_int \<lfloor>a + 1 / 2\<rfloor>)"
| "Math_round PInf = PInf"
| "Math_round NInf = NInf"
| "Math_round NaN = NaN"
| "Math_round Undefined = NaN"

text \<open>
  An array read \<open>xs[i]\<close>: the element when \<open>i\<close> is an integer within the array,
  \<open>undefined\<close> for every other index (a fraction, a negative number, \<open>NaN\<close>).
\<close>

fun elemAt :: "real list \<Rightarrow> jsval \<Rightarrow> jsval" where
  "elemAt xs (Num i) =
     (if of_int \<lfloor>i\<rfloor> = i \<and> 0 \<le> i \<and> i < real (length xs) then Num (xs ! nat \<lfloor>i\<rfloor>)
      else Undefined)"
| "elemAt xs _ = Undefined"

text \<open>
  \<open>n.toString(16)\<close> for the results of \<open>Math.round\<close>, which are integers or
  non-finite: lowercase digits, a minus sign for a negative number, and the names of the
  non-finite numbers. It is never applied to \<open>undefined\<close>.
\<close>

definition hexDigit :: "nat \<Rightarrow> char" where
  "hexDigit d = ''0123456789abcdef'' ! d"

fun hexNat :: "nat \<Rightarrow> string" where
  "hexNat n = (if n < 16 then [hexDigit n] else hexNat (n div 16) @ [hexDigit (n mod 16)])"

declare hexNat.simps [simp del]

fun toString16 :: "jsval \<Rightarrow> string" where
  "toString16 (Num a) =
     (if a < 0 then CHR ''-'' # hexNat (nat \<lfloor>- a\<rfloor>) else hexNat (nat \<lfloor>a\<rfloor>))"
| "toString16 PInf = ''Infinity''"
| "toString16 NInf = ''-Infinity''"
| "toString16 NaN = ''NaN''"
| "toString16 Undefined = ''undefined''"

text \<open>\<open>s.slice(-2)\<close>: the last two characters of a string (all of a shorter one).\<close>

definition slice2 :: "string \<Rightarrow> string" where
  "slice2 s = drop (length s - 2) s"

section \<open>The color map\<close>

text \<open>
  \<open>ColorFormat\<close> is the frozen object of three symbols. A caller can pass anything
  else as the format: \<open>OtherSymbol\<close> stands for a symbol that is none of the three,
  \<open>OtherValue\<close> for a value that is not a symbol (a string, a number, \<open>null\<close>).
\<close>

datatype ColorFormat = DOUBLE | HEX | RGB | OtherSymbol | OtherValue

text \<open>
  The errors: the two the code throws (an unrecognized colormap name, an unrecognized
  format) and the \<open>TypeError\<close> of the language, for a property read on \<open>null\<close> or
  \<open>undefined\<close> and for the conversion of a symbol to a string.
\<close>

datatype error = NotFound | InvalidFormat | TypeError

text \<open>What \<open>interpolateColor\<close> returns: an array of three numbers, or a hex string.\<close>

datatype color = Channels "jsval list" | HexString string

text \<open>
  An element of the array given to \<open>inputColorSeries\<close>, which validates nothing:
  \<open>Point x r g b\<close> is the well-formed \<open>[x, [r, g, b]]\<close>; \<open>Bare x\<close> is an element
  \<open>[x]\<close> with no color array; \<open>Missing\<close> is an element that is \<open>null\<close> or
  \<open>undefined\<close>.
\<close>

datatype js_point = Point real real real real | Bare real | Missing

text \<open>The fields of a \<open>ColorMap\<close> instance; \<open>None\<close> is \<open>null\<close>.\<close>

record ColorMap =
  x_values :: "real list option"
  r_values :: "real list option"
  g_values :: "real list option"
  b_values :: "real list option"
  x_range :: "real \<times> real"

text \<open>
  \<open>ColorSeriesTable\<close> is an object literal with the one own property \<open>rainbow\<close>. The
  file \<open>rainbow.js\<close> that holds the series is not among the sources, so the series is a
  parameter \<open>rainbow\<close> of every operation that reads the table.
\<close>

definition ColorSeriesTable :: "js_point list \<Rightarrow> (string \<times> js_point list) list" where
  "ColorSeriesTable rainbow = [(''rainbow'', rainbow)]"

text \<open>
  The object inherits from \<open>Object.prototype\<close>. These are the property names of
  \<open>Object.prototype\<close>; none is enumerable, and the value of each is a function or an
  object that has no enumerable property itself.
\<close>

definition ObjectPrototypeNames :: "string list" where
  "ObjectPrototypeNames =
     [''constructor'', ''hasOwnProperty'', ''isPrototypeOf'', ''propertyIsEnumerable'',
      ''toLocaleString'', ''toString'', ''valueOf'', ''__proto__'',
      ''__defineGetter__'', ''__defineSetter__'', ''__lookupGetter__'', ''__lookupSetter__'']"

text \<open>\<open>listColorSeries\<close>: \<open>Object.keys\<close> gives the own enumerable property names.\<close>

definition listColorSeries :: "js_point list \<Rightarrow> string list" where
  "listColorSeries rainbow = map fst (ColorSeriesTable rainbow)"

text \<open>\<open>name in ColorSeriesTable\<close>: true for an own property and for an inherited one.\<close>

definition inTable :: "js_point list \<Rightarrow> string \<Rightarrow> bool" where
  "inTable rainbow name =
     (name \<in> set (map fst (ColorSeriesTable rainbow)) \<or> name \<in> set ObjectPrototypeNames)"

definition setInputRange :: "real \<times> real \<Rightarrow> ColorMap \<Rightarrow> ColorMap" where
  "setInputRange rng this = this\<lparr>x_range := rng\<rparr>"

text \<open>
  The loop of \<open>inputColorSeries\<close> over the four arrays it has just created. A well-formed
  element is pushed onto all four. For \<open>[x]\<close> the position is pushed, then
  \<open>values[i][1][0]\<close> reads a property of \<open>undefined\<close> and throws; for a missing element
  \<open>values[i][0]\<close> throws at once. The arrays are returned as they are at that moment.
\<close>

fun pushAll :: "js_point list \<Rightarrow> real list \<times> real list \<times> real list \<times> real list
    \<Rightarrow> error option \<times> (real list \<times> real list \<times> real list \<times> real list)" where
  "pushAll [] (xs, rs, gs, bs) = (None, (xs, rs, gs, bs))"
| "pushAll (Point x r g b # values) (xs, rs, gs, bs) =
     pushAll values (xs @ [x], rs @ [r], gs @ [g], bs @ [b])"
| "pushAll (Bare x # values) (xs, rs, gs, bs) = (Some TypeError, (xs @ [x], rs, gs, bs))"
| "pushAll (Missing # values) (xs, rs, gs, bs) = (Some TypeError, (xs, rs, gs, bs))"

text \<open>
  \<open>inputColorSeries\<close> returns the error thrown, if any, and the instance as the call
  leaves it: the fields are assigned before the loop runs.
\<close>

definition inputColorSeries :: "js_point list \<Rightarrow> ColorMap \<Rightarrow> error option \<times> ColorMap" where
  "inputColorSeries values this =
     (case pushAll values ([], [], [], []) of
        (e, (xs, rs, gs, bs)) \<Rightarrow>
          (e, this\<lparr>x_values := Some xs, r_values := Some rs,
                   g_values := Some gs, b_values := Some bs\<rparr>))"

text \<open>
  \<open>useColorSeries\<close>. For an inherited name the table lookup gives a function or object
  without enumerable properties, over which the \<open>for ... in\<close> loop of
  \<open>inputColorSeries\<close> runs no iteration: the same as loading the empty array. The
  \<open>console.log\<close> is not modelled.
\<close>

definition useColorSeries :: "js_point list \<Rightarrow> string \<Rightarrow> ColorMap \<Rightarrow> error option \<times> ColorMap" where
  "useColorSeries rainbow name this =
     (if \<not> inTable rainbow name then (Some NotFound, this)
      else
        let values = (case map_of (ColorSeriesTable rainbow) name of
                        Some series \<Rightarrow> series
                      | None \<Rightarrow> [])
        in inputColorSeries values this)"

text \<open>The constructor; an absent or empty name is falsy.\<close>

definition newColorMap :: "js_point list \<Rightarrow> string option \<Rightarrow> error option \<times> ColorMap" where
  "newColorMap rainbow colorSeriesName =
     (let this = \<lparr>x_values = None, r_values = None, g_values = None, b_values = None,
                  x_range = (0, 1)\<rparr>
      in case colorSeriesName of
           None \<Rightarrow> (None, this)
         | Some name \<Rightarrow> if name = [] then (None, this) else useColorSeries rainbow name this)"

definition enforceBounds :: "jsval \<Rightarrow> jsval" where
  "enforceBounds x =
     (if js_lt x (Num 0) then Num 0
      else if js_gt x (Num 1) then Num 1
      else x)"

text \<open>
  \<open>formatColor\<close>. The last statement builds its message from the format with a template
  literal, which throws a \<open>TypeError\<close> of its own when the format is a symbol.
\<close>

definition formatColor :: "jsval list \<Rightarrow> ColorFormat \<Rightarrow> error + color" where
  "formatColor doubleVal format =
     (if format = DOUBLE then Inr (Channels doubleVal)
      else
        let rgbVal = map (\<lambda>val. Math_round (js_mul (Num 255) val)) doubleVal in
        if format = RGB then Inr (Channels rgbVal)
        else if format = HEX then
          let hexVal = map (\<lambda>val. slice2 (''0'' @ toString16 val)) rgbVal
          in Inr (HexString (''#'' @ concat hexVal))
        else if format = OtherSymbol then Inl TypeError
        else Inl InvalidFormat)"

text \<open>\<open>lookupColor\<close>; an element read on a \<open>null\<close> field throws.\<close>

definition lookupColor :: "ColorMap \<Rightarrow> jsval \<Rightarrow> ColorFormat \<Rightarrow> error + color" where
  "lookupColor this i format =
     (case (r_values this, g_values this, b_values this) of
        (Some rs, Some gs, Some bs) \<Rightarrow> formatColor [elemAt rs i, elemAt gs i, elemAt bs i] format
      | _ \<Rightarrow> Inl TypeError)"

text \<open>The two loops of the bracket search, with the conditions in the order of the source.\<close>

function scanLo :: "real list \<Rightarrow> jsval \<Rightarrow> jsval \<Rightarrow> jsval" where
  "scanLo xs x iLo =
     (if js_gt (elemAt xs iLo) x \<and> js_gt iLo (Num 0) then scanLo xs x (js_sub iLo (Num 1))
      else iLo)"
  by pat_completeness auto
termination
proof (relation "measure (\<lambda>(xs, x, iLo). case iLo of Num i \<Rightarrow> nat \<lceil>i\<rceil> | _ \<Rightarrow> 0)")
  show "wf (measure (\<lambda>(xs, x, iLo). case iLo of Num i \<Rightarrow> nat \<lceil>i\<rceil> | _ \<Rightarrow> 0))"
    by simp
next
  fix xs :: "real list" and x iLo :: jsval
  assume "js_gt (elemAt xs iLo) x \<and> js_gt iLo (Num 0)"
  then obtain i where "iLo = Num i" and "0 < i"
    by (cases iLo) (simp_all add: js_gt_def)
  moreover have "nat \<lceil>i - 1\<rceil> < nat \<lceil>i\<rceil>" "0 < nat \<lceil>i\<rceil>" if "0 < i"
    using that by linarith+
  ultimately show "((xs, x, js_sub iLo (Num 1)), (xs, x, iLo))
      \<in> measure (\<lambda>(xs, x, iLo). case iLo of Num i \<Rightarrow> nat \<lceil>i\<rceil> | _ \<Rightarrow> 0)"
    by (simp add: js_sub_def fin_def)
qed

function scanHi :: "real list \<Rightarrow> jsval \<Rightarrow> jsval \<Rightarrow> jsval \<Rightarrow> jsval" where
  "scanHi xs x iMax iHi =
     (if js_lt (elemAt xs iHi) x \<and> js_lt iHi iMax then scanHi xs x iMax (js_add iHi (Num 1))
      else iHi)"
  by pat_completeness auto
termination
proof (relation "measure (\<lambda>(xs, x, iMax, iHi).
         case iHi of Num i \<Rightarrow> length xs - nat \<lfloor>i\<rfloor> | _ \<Rightarrow> 0)")
  show "wf (measure (\<lambda>(xs, x, iMax, iHi).
         case iHi of Num i \<Rightarrow> length xs - nat \<lfloor>i\<rfloor> | _ \<Rightarrow> 0))"
    by simp
next
  fix xs :: "real list" and x iMax iHi :: jsval
  assume a: "js_lt (elemAt xs iHi) x \<and> js_lt iHi iMax"
  then obtain i where i: "iHi = Num i"
    by (cases iHi) simp_all
  have r: "0 \<le> i \<and> i < real (length xs)"
  proof (rule ccontr)
    assume "\<not> (0 \<le> i \<and> i < real (length xs))"
    then have "elemAt xs (Num i) = Undefined"
      by auto
    with a i show False
      by simp
  qed
  then have "length xs - nat \<lfloor>i + 1\<rfloor> < length xs - nat \<lfloor>i\<rfloor>"
      "0 < length xs - nat \<lfloor>i\<rfloor>"
    by linarith+
  with i show "((xs, x, iMax, js_add iHi (Num 1)), (xs, x, iMax, iHi))
      \<in> measure (\<lambda>(xs, x, iMax, iHi). case iHi of Num i \<Rightarrow> length xs - nat \<lfloor>i\<rfloor> | _ \<Rightarrow> 0)"
    by (auto simp: fin_def)
qed

declare scanLo.simps [simp del] scanHi.simps [simp del]

text \<open>
  \<open>interpolateColor\<close> returns the color or the error thrown, and the instance as the
  call leaves it. \<open>!this.x_values\<close> is true for \<open>null\<close> only (an empty array is truthy).
  The statement \<open>console.assert(iHi = iLo + 1)\<close> is an assignment: whenever the two
  indices differ, \<open>iHi\<close> becomes \<open>iLo + 1\<close> before the blend. The comparisons
  \<open>x <= 0.0\<close> and \<open>x >= 1.0\<close> are false for \<open>NaN\<close>, which then reaches the search.
  The values \<open>colorLo\<close> and \<open>colorHi\<close> are never used; the two calls of
  \<open>lookupColor\<close> that compute them can only throw on a \<open>null\<close> field, which is the
  last branch.
\<close>

definition interpolateColor ::
    "js_point list \<Rightarrow> ColorMap \<Rightarrow> real \<Rightarrow> ColorFormat \<Rightarrow> (error + color) \<times> ColorMap" where
  "interpolateColor rainbow this0 val format =
     (case (if x_values this0 = None then inputColorSeries rainbow this0 else (None, this0)) of
        (Some e, this) \<Rightarrow> (Inl e, this)
      | (None, this) \<Rightarrow>
          (case x_values this of
             None \<Rightarrow> (Inl TypeError, this)
           | Some xs \<Rightarrow>
               let x = js_div (js_sub (Num val) (Num (fst (x_range this))))
                              (js_sub (Num (snd (x_range this))) (Num (fst (x_range this))))
               in
               if js_le x (Num 0) then (lookupColor this (Num 0) format, this)
               else
                 let iMax = Num (real (length xs) - 1) in
                 if js_ge x (Num 1) then (lookupColor this iMax format, this)
                 else
                   let iLo = scanLo xs x (Math_ceil (js_mul x iMax));
                       iHi = scanHi xs x iMax iLo
                   in
                   if js_eq iLo iHi then (lookupColor this iLo format, this)
                   else
                     let iHi = js_add iLo (Num 1) in
                     (case (r_values this, g_values this, b_values this) of
                        (Some rs, Some gs, Some bs) \<Rightarrow>
                          let width = Math_abs (js_sub (elemAt xs iHi) (elemAt xs iLo));
                              scaling_factor = js_div (js_sub x (elemAt xs iLo)) width;
                              r = js_add (elemAt rs iLo)
                                    (js_mul scaling_factor (js_sub (elemAt rs iHi) (elemAt rs iLo)));
                              g = js_add (elemAt gs iLo)
                                    (js_mul scaling_factor (js_sub (elemAt gs iHi) (elemAt gs iLo)));
                              b = js_add (elemAt bs iLo)
                                    (js_mul scaling_factor (js_sub (elemAt bs iHi) (elemAt bs iLo)));
                              doubleResult = [enforceBounds r, enforceBounds g, enforceBounds b]
                          in (formatColor doubleResult format, this)
                      | _ \<Rightarrow> (Inl TypeError, this))))"

section \<open>Reference notions and fixtures\<close>

text \<open>
  The bracket as the specification words it, for comparison with the search of the code:
  the adjacent indices \<open>iLo\<close>, \<open>iHi\<close> with \<open>position[iLo] <= x <= position[iHi]\<close>, equal
  on an exact hit. Over increasing positions these are the last index whose position is
  at most \<open>x\<close> and the first index whose position is at least \<open>x\<close>, which is what a
  binary search finds.
\<close>

definition specBracket :: "real list \<Rightarrow> real \<Rightarrow> nat \<times> nat" where
  "specBracket xs x =
     (length (takeWhile (\<lambda>p. p \<le> x) xs) - 1, length (takeWhile (\<lambda>p. p < x) xs))"

text \<open>The linear blend of one channel between the two points of that bracket.\<close>

definition specBlend :: "real list \<Rightarrow> real list \<Rightarrow> real \<Rightarrow> real" where
  "specBlend xs cs x =
     (case specBracket xs x of
        (iLo, iHi) \<Rightarrow>
          if iLo = iHi then cs ! iLo
          else cs ! iLo + (x - xs ! iLo) / (xs ! iHi - xs ! iLo) * (cs ! iHi - cs ! iLo))"

text \<open>
  Rounding to the nearest integer with a tie away from zero, as the specification words
  the rounding of the BYTE format.
\<close>

definition roundHalfAwayFromZero :: "real \<Rightarrow> int" where
  "roundHalfAwayFromZero a = (if 0 \<le> a then \<lfloor>a + 1 / 2\<rfloor> else \<lceil>a - 1 / 2\<rceil>)"

text \<open>The series of \<open>test/colorkit.spec.js\<close>.\<close>

definition smallSeries :: "js_point list" where
  "smallSeries =
     [Point 0 0 (6 / 10) (55 / 100),
      Point (2 / 10) (2 / 10) (4 / 10) (54 / 100),
      Point (4 / 10) (4 / 10) (2 / 10) (53 / 100),
      Point (6 / 10) (6 / 10) (2 / 10) (52 / 100),
      Point (8 / 10) (8 / 10) (4 / 10) (51 / 100),
      Point 1 1 (6 / 10) (50 / 100)]"

text \<open>
  A series that meets every documented requirement (first position 0, last position 1,
  positions strictly increasing, channels within [0, 1]) and has most of its points at
  low positions.
\<close>

definition lowSeries :: "js_point list" where
  "lowSeries =
     [Point 0 0 1 (1 / 2),
      Point (1 / 16) 0 1 (1 / 2),
      Point (1 / 8) 0 1 (1 / 2),
      Point (3 / 16) 0 1 (1 / 2),
      Point (1 / 4) 0 0 (1 / 2),
      Point 1 1 0 (1 / 2)]"

text \<open>A series with color channels outside [0, 1], which the loader accepts.\<close>

definition outOfSpecSeries :: "js_point list" where
  "outOfSpecSeries =
     [Point 0 2 (- 1 / 2) 0,
      Point (1 / 2) 3 (- 1) 0,
      Point 1 0 0 0]"

text \<open>The two-point ramp from black at position 0 to white at position 1.\<close>

definition rampSeries :: "js_point list" where
  "rampSeries = [Point 0 0 0 0, Point 1 1 1 1]"

text \<open>A fresh instance with a series loaded by \<open>inputColorSeries\<close>.\<close>

definition loaded :: "js_point list \<Rightarrow> ColorMap" where
  "loaded values = snd (inputColorSeries values (snd (newColorMap [] None)))"


section \<open>Overflow\<close>

lemma overflowBound_big: "2 ^ 1023 < overflowBound"
  by (simp add: overflowBound_def)

lemma fin_Num: "- overflowBound < a \<Longrightarrow> a < overflowBound \<Longrightarrow> fin a = Num a"
  by (simp add: fin_def)

lemma fin_below: "\<bar>a\<bar> \<le> 2 ^ 1023 \<Longrightarrow> fin a = Num a"
  using overflowBound_big by (intro fin_Num) linarith+

lemma fin_million: "- 1000000 \<le> a \<Longrightarrow> a \<le> 1000000 \<Longrightarrow> fin a = Num a"
proof -
  assume "- 1000000 \<le> a" "a \<le> 1000000"
  moreover have "(1000000 :: real) \<le> 2 ^ 1023" by simp
  ultimately have "\<bar>a\<bar> \<le> 2 ^ 1023" by linarith
  then show ?thesis by (rule fin_below)
qed

lemma fin_number: "fin a \<noteq> NaN" "fin a \<noteq> Undefined"
  by (simp_all add: fin_def)

lemma index_bound: "k < 2 ^ 32 \<Longrightarrow> \<bar>real k\<bar> \<le> 2 ^ 1023" "k < 2 ^ 32 \<Longrightarrow> \<bar>real k + 1\<bar> \<le> 2 ^ 1023"
proof -
  assume "k < 2 ^ 32"
  then have "real k < 2 ^ 32" by (metis of_nat_less_iff of_nat_numeral of_nat_power)
  moreover have "(2 :: real) ^ 32 + 1 \<le> 2 ^ 1023" by simp
  ultimately show "\<bar>real k\<bar> \<le> 2 ^ 1023" "\<bar>real k + 1\<bar> \<le> 2 ^ 1023" by linarith+
qed

lemma index_succ: "j < 2 ^ 32 \<Longrightarrow> js_add (Num (real j)) (Num 1) = Num (real (Suc j))"
  using index_bound(2) [of j] by (simp add: fin_below add.commute)

lemma index_pred: "k < 2 ^ 32 \<Longrightarrow> js_sub (Num (real (Suc k))) (Num 1) = Num (real k)"
  using index_bound(1) [of k] by (simp add: js_sub_def fin_below)

section \<open>Indices of the search\<close>

lemma elemAt_nat:
  "elemAt xs (Num (real k)) = (if k < length xs then Num (xs ! k) else Undefined)"
  by simp

lemma seed_index:
  assumes "0 < xr" "xr < 1" "xs \<noteq> []" "length xs < 2 ^ 32"
  shows "\<exists>k. Math_ceil (js_mul (Num xr) (Num (real (length xs) - 1))) = Num (real k)
             \<and> k < length xs"
proof -
  let ?m = "real (length xs) - 1"
  have m: "0 \<le> ?m" using assms(3) by (cases xs) simp_all
  have lo: "0 \<le> xr * ?m" using assms(1) m by simp
  have hi: "xr * ?m \<le> ?m" using assms(1,2) m mult_left_le_one_le [of ?m xr] by simp
  have "\<bar>real (length xs)\<bar> \<le> 2 ^ 1023" using index_bound(1) [OF assms(4)] .
  then have "\<bar>xr * ?m\<bar> \<le> 2 ^ 1023" using lo hi by linarith
  then have f: "js_mul (Num xr) (Num ?m) = Num (xr * ?m)" by (simp add: fin_below)
  have c0: "0 \<le> \<lceil>xr * ?m\<rceil>" using lo by linarith
  have "\<lceil>xr * ?m\<rceil> \<le> \<lceil>?m\<rceil>" using hi by (rule ceiling_mono)
  also have "\<lceil>?m\<rceil> = int (length xs) - 1" by simp
  finally have c1: "\<lceil>xr * ?m\<rceil> < int (length xs)" by simp
  have "real_of_int \<lceil>xr * ?m\<rceil> = real (nat \<lceil>xr * ?m\<rceil>)" using c0 by simp
  moreover have "nat \<lceil>xr * ?m\<rceil> < length xs" using c0 c1 by linarith
  ultimately show ?thesis using f by auto
qed



lemma lookupColor_index:
  assumes "r_values this = Some rs" "g_values this = Some gs" "b_values this = Some bs"
    and "j < length rs" "j < length gs" "j < length bs"
  shows "lookupColor this (Num (real j)) format
         = formatColor [Num (rs ! j), Num (gs ! j), Num (bs ! j)] format"
  using assms by (simp add: lookupColor_def elemAt_nat del: elemAt.simps)

lemma enforceBounds_Num:
  "enforceBounds (Num v) = Num (if v < 0 then 0 else if 1 < v then 1 else v)"
  by (simp add: enforceBounds_def js_gt_def)



section \<open>The state after a call\<close>

lemma pushAll_points:
  "pushAll (map (\<lambda>(x, r, g, b). Point x r g b) pts @ rest) (xs, rs, gs, bs)
   = pushAll rest (xs @ map fst pts, rs @ map (fst \<circ> snd) pts,
                   gs @ map (fst \<circ> snd \<circ> snd) pts, bs @ map (snd \<circ> snd \<circ> snd) pts)"
  by (induction pts arbitrary: xs rs gs bs) (auto)

lemma pushAll_error: "fst (pushAll values acc) \<noteq> Some NotFound"
  by (induction "values" acc rule: pushAll.induct) simp_all

lemma inputColorSeries_error: "fst (inputColorSeries values this) \<noteq> Some NotFound"
  using pushAll_error [of "values" "([], [], [], [])"]
  by (auto simp: inputColorSeries_def split: prod.splits)

lemma inputColorSeries_range: "x_range (snd (inputColorSeries values this)) = x_range this"
  by (simp add: inputColorSeries_def split: prod.splits)

lemma useColorSeries_range: "x_range (snd (useColorSeries rainbow name this)) = x_range this"
  by (simp add: useColorSeries_def Let_def inputColorSeries_range)

lemma interpolateColor_state:
  "snd (interpolateColor rainbow this val format)
   = (if x_values this = None then snd (inputColorSeries rainbow this) else this)"
proof -
  obtain e this1 where
    l: "(if x_values this = None then inputColorSeries rainbow this else (None, this)) = (e, this1)"
    by (cases "if x_values this = None then inputColorSeries rainbow this else (None, this)")
  have "snd (interpolateColor rainbow this val format) = this1"
  proof (cases e)
    case (Some err)
    with l show ?thesis by (simp add: interpolateColor_def)
  next
    case None
    show ?thesis
    proof (cases "x_values this1")
      case n: None
      with l None show ?thesis by (simp add: interpolateColor_def)
    next
      case (Some xs)
      show ?thesis
        apply (simp only: interpolateColor_def l None Some prod.case option.case Let_def)
        apply (simp only: if_distrib [of snd] option.case_distrib [of snd] snd_conv
                 option.case_eq_if if_cancel)
        done
    qed
  qed
  moreover have "this1 = (if x_values this = None then snd (inputColorSeries rainbow this) else this)"
    using l by (auto split: if_splits)
  ultimately show ?thesis by simp
qed

section \<open>Formats\<close>

lemma formatColor_DOUBLE: "formatColor cs DOUBLE = Inr (Channels cs)"
  by (simp add: formatColor_def)

lemma interpolateColor_cong:
  assumes "x_values this = Some xs" "x_values this' = Some xs"
    and "r_values this' = r_values this" "g_values this' = g_values this"
    and "b_values this' = b_values this"
    and "js_div (js_sub (Num val') (Num (fst (x_range this'))))
                (js_sub (Num (snd (x_range this'))) (Num (fst (x_range this'))))
       = js_div (js_sub (Num val) (Num (fst (x_range this))))
                (js_sub (Num (snd (x_range this))) (Num (fst (x_range this))))"
  shows "fst (interpolateColor rainbow this' val' format)
       = fst (interpolateColor rainbow this val format)"
  using assms
  by (simp only: interpolateColor_def lookupColor_def Let_def option.simps if_False prod.case
        if_distrib [of fst] option.case_distrib [of fst] fst_conv)

lemma hexNat_nonempty: "hexNat n \<noteq> []"
  by (subst hexNat.simps) simp

lemma toString16_nonempty: "toString16 v \<noteq> []"
  by (cases v) (simp_all add: hexNat_nonempty)

lemma slice2_length: "length (slice2 (''0'' @ toString16 v)) = 2"
proof -
  have "1 \<le> length (toString16 v)"
    using toString16_nonempty [of v] by (cases "toString16 v") simp_all
  then show ?thesis by (simp add: slice2_def)
qed

lemma hexNat_byte:
  assumes "k \<le> 255"
  shows "slice2 (''0'' @ hexNat k) = [hexDigit (k div 16), hexDigit (k mod 16)]"
proof (cases "k < 16")
  case True
  then have "hexNat k = [hexDigit k]" by (subst hexNat.simps) simp
  with True show ?thesis by (simp add: slice2_def hexDigit_def)
next
  case False
  have "k div 16 < 16" using assms by simp
  then have "hexNat (k div 16) = [hexDigit (k div 16)]" by (subst hexNat.simps) simp
  with False have "hexNat k = [hexDigit (k div 16), hexDigit (k mod 16)]"
    by (subst hexNat.simps) simp
  then show ?thesis by (simp add: slice2_def)
qed

lemma byte_of_fraction:
  assumes "0 \<le> a" "a \<le> 1"
  shows "\<exists>k. Math_round (js_mul (Num 255) (Num a)) = Num (real k) \<and> k \<le> 255
            \<and> int k = roundHalfAwayFromZero (255 * a)
            \<and> slice2 (''0'' @ toString16 (Num (real k)))
                = [hexDigit (k div 16), hexDigit (k mod 16)]"
proof -
  let ?z = "\<lfloor>255 * a + 1 / 2\<rfloor>"
  have z0: "0 \<le> ?z" using assms(1) by (simp add: zero_le_floor)
  have "255 * a + 1 / 2 < 256" using assms(2) by simp
  then have "?z < 256" by (simp add: floor_less_iff)
  then have z1: "nat ?z \<le> 255" using z0 by linarith
  have "\<bar>255 * a\<bar> \<le> 2 ^ 1023" using assms by simp
  then have r: "Math_round (js_mul (Num 255) (Num a)) = Num (real (nat ?z))"
    using z0 by (simp add: fin_below)
  have h: "int (nat ?z) = roundHalfAwayFromZero (255 * a)"
    using assms(1) z0 by (simp add: roundHalfAwayFromZero_def)
  have "toString16 (Num (real (nat ?z))) = hexNat (nat ?z)" by simp
  then have "slice2 (''0'' @ toString16 (Num (real (nat ?z))))
      = [hexDigit (nat ?z div 16), hexDigit (nat ?z mod 16)]"
    using hexNat_byte [OF z1] by simp
  with r h z1 show ?thesis by blast
qed

lemma lookupColor_via_DOUBLE:
  "lookupColor this i format
   = (case lookupColor this i DOUBLE of Inr (Channels cs) \<Rightarrow> formatColor cs format | r \<Rightarrow> r)"
  by (simp add: lookupColor_def formatColor_DOUBLE split: option.splits)

lemma interpolateColor_via_DOUBLE:
  "interpolateColor rainbow this val format
   = (case interpolateColor rainbow this val DOUBLE of
        (Inr (Channels cs), t) \<Rightarrow> (formatColor cs format, t)
      | (r, t) \<Rightarrow> (r, t))"
proof -
  obtain e this1 where
    l: "(if x_values this = None then inputColorSeries rainbow this else (None, this)) = (e, this1)"
    by (cases "if x_values this = None then inputColorSeries rainbow this else (None, this)")
  have ifF: "(if c then a else b)
      = (case (if c then a' else b') of
           (Inr (Channels cs), t) \<Rightarrow> (formatColor cs format, t)
         | (r, t) \<Rightarrow> (r, t))"
    if "a = (case a' of (Inr (Channels cs), t) \<Rightarrow> (formatColor cs format, t) | (r, t) \<Rightarrow> (r, t))"
      and "b = (case b' of (Inr (Channels cs), t) \<Rightarrow> (formatColor cs format, t) | (r, t) \<Rightarrow> (r, t))"
    for c a b a' b'
    using that by simp
  have leaf1: "(lookupColor this1 i format, this1)
      = (case (lookupColor this1 i DOUBLE, this1) of
           (Inr (Channels cs), t) \<Rightarrow> (formatColor cs format, t)
         | (r, t) \<Rightarrow> (r, t))" for i
    by (subst lookupColor_via_DOUBLE) (simp split: sum.splits color.splits)
  have leaf2: "(formatColor L format, this1)
      = (case (formatColor L DOUBLE, this1) of
           (Inr (Channels cs), t) \<Rightarrow> (formatColor cs format, t)
         | (r, t) \<Rightarrow> (r, t))" for L
    by (simp add: formatColor_DOUBLE)
  have leaf3: "(Inl err, this1)
      = (case (Inl err, this1) of
           (Inr (Channels cs), t) \<Rightarrow> (formatColor cs format, t)
         | (r, t) \<Rightarrow> (r, t))" for err :: error
    by simp
  show ?thesis
  proof (cases e)
    case (Some err)
    with l show ?thesis by (simp add: interpolateColor_def)
  next
    case None
    show ?thesis
    proof (cases "x_values this1")
      case n: None
      with l None show ?thesis by (simp add: interpolateColor_def)
    next
      case (Some xs)
      show ?thesis
      proof (cases "\<exists>rs gs bs. r_values this1 = Some rs \<and> g_values this1 = Some gs
                      \<and> b_values this1 = Some bs")
        case True
        then obtain rs gs bs where
          c: "r_values this1 = Some rs" "g_values this1 = Some gs" "b_values this1 = Some bs"
          by blast
        show ?thesis
          apply (simp only: interpolateColor_def l None Some c prod.case option.case Let_def)
          apply (intro ifF leaf1 leaf2)
          done
      next
        case False
        then have r: "(case r_values this1 of
                        None \<Rightarrow> (Inl TypeError, this1)
                      | Some rs \<Rightarrow>
                          (case g_values this1 of
                             None \<Rightarrow> (Inl TypeError, this1)
                           | Some gs \<Rightarrow>
                               (case b_values this1 of
                                  None \<Rightarrow> (Inl TypeError, this1)
                                | Some bs \<Rightarrow> f rs gs bs))) = (Inl TypeError, this1)"
          for f :: "_ \<Rightarrow> _ \<Rightarrow> _ \<Rightarrow> (error + color) \<times> ColorMap"
          by (auto split: option.splits)
        show ?thesis
          apply (simp only: interpolateColor_def l None Some prod.case option.case Let_def r)
          apply (intro ifF leaf1 leaf2 leaf3)
          done
      qed
    qed
  qed
qed

lemma interpolateColor_three:
  assumes "interpolateColor rainbow this val DOUBLE = (Inr (Channels cs), t)"
  shows "length cs = 3"
proof -
  define P :: "(error + color) \<times> ColorMap \<Rightarrow> bool" where
    "P = (\<lambda>p. case p of (Inr (Channels cs), t) \<Rightarrow> length cs = 3 | _ \<Rightarrow> True)"
  obtain e this1 where
    l: "(if x_values this = None then inputColorSeries rainbow this else (None, this)) = (e, this1)"
    by (cases "if x_values this = None then inputColorSeries rainbow this else (None, this)")
  have ifP: "P (if c then a else b)" if "P a" "P b" for c a b
    using that by simp
  have leaf1: "P (lookupColor this1 i DOUBLE, this1)" for i
    by (simp add: P_def lookupColor_def formatColor_DOUBLE split: option.splits)
  have leaf2: "P (formatColor [c1, c2, c3] DOUBLE, this1)" for c1 c2 c3
    by (simp add: P_def formatColor_DOUBLE)
  have leaf3: "P (Inl err, this1)" for err
    by (simp add: P_def)
  have "P (interpolateColor rainbow this val DOUBLE)"
  proof (cases e)
    case (Some err)
    with l leaf3 show ?thesis by (simp add: interpolateColor_def)
  next
    case None
    show ?thesis
    proof (cases "x_values this1")
      case n: None
      with l None leaf3 show ?thesis by (simp add: interpolateColor_def)
    next
      case (Some xs)
      show ?thesis
      proof (cases "\<exists>rs gs bs. r_values this1 = Some rs \<and> g_values this1 = Some gs
                      \<and> b_values this1 = Some bs")
        case True
        then obtain rs gs bs where
          c: "r_values this1 = Some rs" "g_values this1 = Some gs" "b_values this1 = Some bs"
          by blast
        show ?thesis
          apply (simp only: interpolateColor_def l None Some c prod.case option.case Let_def)
          apply (intro ifP leaf1 leaf2)
          done
      next
        case False
        then have r: "(case r_values this1 of
                        None \<Rightarrow> (Inl TypeError, this1)
                      | Some rs \<Rightarrow>
                          (case g_values this1 of
                             None \<Rightarrow> (Inl TypeError, this1)
                           | Some gs \<Rightarrow>
                               (case b_values this1 of
                                  None \<Rightarrow> (Inl TypeError, this1)
                                | Some bs \<Rightarrow> f rs gs bs))) = (Inl TypeError, this1)"
          for f :: "_ \<Rightarrow> _ \<Rightarrow> _ \<Rightarrow> (error + color) \<times> ColorMap"
          by (auto split: option.splits)
        show ?thesis
          apply (simp only: interpolateColor_def l None Some prod.case option.case Let_def r)
          apply (intro ifP leaf1 leaf2 leaf3)
          done
      qed
    qed
  qed
  with assms show ?thesis by (simp add: P_def)
qed

section \<open>The boundary branches\<close>

lemma interpolateColor_first:
  assumes "x_values this = Some xs"
    and "js_le (js_div (js_sub (Num val) (Num (fst (x_range this))))
                       (js_sub (Num (snd (x_range this))) (Num (fst (x_range this))))) (Num 0)"
  shows "interpolateColor rainbow this val format = (lookupColor this (Num 0) format, this)"
  using assms by (simp add: interpolateColor_def Let_def)

lemma interpolateColor_last:
  assumes "x_values this = Some xs"
    and "\<not> js_le (js_div (js_sub (Num val) (Num (fst (x_range this))))
                       (js_sub (Num (snd (x_range this))) (Num (fst (x_range this))))) (Num 0)"
    and "js_ge (js_div (js_sub (Num val) (Num (fst (x_range this))))
                       (js_sub (Num (snd (x_range this))) (Num (fst (x_range this))))) (Num 1)"
  shows "interpolateColor rainbow this val format
         = (lookupColor this (Num (real (length xs) - 1)) format, this)"
  using assms by (simp add: interpolateColor_def Let_def)

lemma lookupColor_first:
  assumes "r_values this = Some rs" "g_values this = Some gs" "b_values this = Some bs"
    and "xs \<noteq> []" "length rs = length xs" "length gs = length xs" "length bs = length xs"
  shows "lookupColor this (Num 0) format
         = formatColor [Num (rs ! 0), Num (gs ! 0), Num (bs ! 0)] format"
  using lookupColor_index [OF assms(1-3), of 0 format] assms(4-7) by simp

lemma lookupColor_last:
  assumes "r_values this = Some rs" "g_values this = Some gs" "b_values this = Some bs"
    and "xs \<noteq> []" "length rs = length xs" "length gs = length xs" "length bs = length xs"
  shows "lookupColor this (Num (real (length xs) - 1)) format
         = formatColor [Num (last rs), Num (last gs), Num (last bs)] format"
proof -
  have n: "0 < length xs" using assms(4) by simp
  have "1 \<le> length xs" using assms(4) by (cases xs) simp_all
  then have e: "real (length xs) - 1 = real (length xs - 1)" by (simp add: of_nat_diff)
  have ne: "rs \<noteq> []" "gs \<noteq> []" "bs \<noteq> []" using assms(4-7) by auto
  have k: "lookupColor this (Num (real (length xs - 1))) format
      = formatColor [Num (rs ! (length xs - 1)), Num (gs ! (length xs - 1)),
                     Num (bs ! (length xs - 1))] format"
    using assms n by (intro lookupColor_index) simp_all
  have l: "last rs = rs ! (length xs - 1)" "last gs = gs ! (length xs - 1)"
      "last bs = bs ! (length xs - 1)"
    using last_conv_nth [OF ne(1)] last_conv_nth [OF ne(2)] last_conv_nth [OF ne(3)] assms(5-7)
    by simp_all
  show ?thesis
    by (simp only: e k l)
qed


section \<open>The search over increasing positions\<close>

lemma takeWhile_le_index:
  assumes "sorted_wrt (<) (xs :: real list)" "i < length xs"
  shows "xs ! i \<le> x \<longleftrightarrow> i < length (takeWhile (\<lambda>p. p \<le> x) xs)"
proof
  assume le: "xs ! i \<le> x"
  show "i < length (takeWhile (\<lambda>p. p \<le> x) xs)"
  proof (rule ccontr)
    assume "\<not> i < length (takeWhile (\<lambda>p. p \<le> x) xs)"
    then have m: "length (takeWhile (\<lambda>p. p \<le> x) xs) \<le> i" by simp
    then have ml: "length (takeWhile (\<lambda>p. p \<le> x) xs) < length xs" using assms(2) by simp
    have "\<not> xs ! length (takeWhile (\<lambda>p. p \<le> x) xs) \<le> x"
      using nth_length_takeWhile [OF ml] .
    moreover have "xs ! length (takeWhile (\<lambda>p. p \<le> x) xs) \<le> xs ! i"
    proof (cases "length (takeWhile (\<lambda>p. p \<le> x) xs) = i")
      case True then show ?thesis by simp
    next
      case False
      then have "length (takeWhile (\<lambda>p. p \<le> x) xs) < i" using m by simp
      then show ?thesis using assms sorted_wrt_nth_less [of "(<)" xs] by fastforce
    qed
    ultimately show False using le by simp
  qed
next
  assume "i < length (takeWhile (\<lambda>p. p \<le> x) xs)"
  then have "takeWhile (\<lambda>p. p \<le> x) xs ! i \<le> x"
    using nth_mem [of i "takeWhile (\<lambda>p. p \<le> x) xs"] set_takeWhileD by fastforce
  then show "xs ! i \<le> x"
    using takeWhile_nth [of i "\<lambda>p. p \<le> x" xs] \<open>i < length (takeWhile (\<lambda>p. p \<le> x) xs)\<close> by simp
qed

lemma takeWhile_less_index:
  assumes "sorted_wrt (<) (xs :: real list)" "i < length xs"
  shows "xs ! i < x \<longleftrightarrow> i < length (takeWhile (\<lambda>p. p < x) xs)"
proof
  assume le: "xs ! i < x"
  show "i < length (takeWhile (\<lambda>p. p < x) xs)"
  proof (rule ccontr)
    assume "\<not> i < length (takeWhile (\<lambda>p. p < x) xs)"
    then have m: "length (takeWhile (\<lambda>p. p < x) xs) \<le> i" by simp
    then have ml: "length (takeWhile (\<lambda>p. p < x) xs) < length xs" using assms(2) by simp
    have "\<not> xs ! length (takeWhile (\<lambda>p. p < x) xs) < x"
      using nth_length_takeWhile [OF ml] .
    moreover have "xs ! length (takeWhile (\<lambda>p. p < x) xs) \<le> xs ! i"
    proof (cases "length (takeWhile (\<lambda>p. p < x) xs) = i")
      case True then show ?thesis by simp
    next
      case False
      then have "length (takeWhile (\<lambda>p. p < x) xs) < i" using m by simp
      then show ?thesis using assms sorted_wrt_nth_less [of "(<)" xs] by fastforce
    qed
    ultimately show False using le by simp
  qed
next
  assume "i < length (takeWhile (\<lambda>p. p < x) xs)"
  then have "takeWhile (\<lambda>p. p < x) xs ! i < x"
    using nth_mem [of i "takeWhile (\<lambda>p. p < x) xs"] set_takeWhileD by fastforce
  then show "xs ! i < x"
    using takeWhile_nth [of i "\<lambda>p. p < x" xs] \<open>i < length (takeWhile (\<lambda>p. p < x) xs)\<close> by simp
qed

lemma scanLo_min:
  assumes "sorted_wrt (<) xs" "xs \<noteq> []" "xs ! 0 \<le> x" "s < length xs"
    and "length xs < 2 ^ 32"
  shows "scanLo xs (Num x) (Num (real s))
         = Num (real (min s (fst (specBracket xs x))))"
  using assms(4)
proof (induction s)
  case 0
  show ?case by (subst scanLo.simps) (simp add: js_gt_def)
next
  case (Suc s)
  let ?m = "length (takeWhile (\<lambda>p. p \<le> x) xs)"
  have m0: "0 < ?m" using takeWhile_le_index [OF assms(1), of 0 x] assms(2,3) by simp
  have lo: "fst (specBracket xs x) = ?m - 1" by (simp add: specBracket_def)
  have e: "elemAt xs (Num (real (Suc s))) = Num (xs ! Suc s)"
    using Suc.prems by (simp only: elemAt_nat if_True)
  show ?case
  proof (cases "xs ! Suc s \<le> x")
    case True
    then have "Suc s < ?m" using takeWhile_le_index [OF assms(1) Suc.prems, of x] by simp
    then have "min (Suc s) (fst (specBracket xs x)) = Suc s" using lo by simp
    moreover have "scanLo xs (Num x) (Num (real (Suc s))) = Num (real (Suc s))"
      using True by (subst scanLo.simps) (simp add: e js_gt_def del: elemAt.simps of_nat_Suc)
    ultimately show ?thesis by simp
  next
    case False
    then have "\<not> Suc s < ?m" using takeWhile_le_index [OF assms(1) Suc.prems, of x] by simp
    then have mn: "min (Suc s) (fst (specBracket xs x)) = min s (fst (specBracket xs x))"
      using lo m0 by simp
    have "js_sub (Num (real (Suc s))) (Num 1) = Num (real s)"
      using Suc.prems assms(5) by (intro index_pred) simp
    then have "scanLo xs (Num x) (Num (real (Suc s))) = scanLo xs (Num x) (Num (real s))"
      using False by (subst scanLo.simps) (simp add: e js_gt_def del: elemAt.simps of_nat_Suc)
    with Suc.IH Suc.prems mn show ?thesis by simp
  qed
qed

lemma scanHi_first:
  assumes "sorted_wrt (<) xs" "xs \<noteq> []" "x \<le> last xs"
    and "j \<le> snd (specBracket xs x)" and "length xs < 2 ^ 32"
  shows "scanHi xs (Num x) (Num (real (length xs) - 1)) (Num (real j))
         = Num (real (snd (specBracket xs x)))"
proof -
  let ?m = "length (takeWhile (\<lambda>p. p < x) xs)"
  let ?iMax = "Num (real (length xs) - 1)"
  have hi: "snd (specBracket xs x) = ?m" by (simp add: specBracket_def)
  have n: "0 < length xs" using assms(2) by simp
  have "\<not> last xs < x" using assms(3) by simp
  then have "\<not> xs ! (length xs - 1) < x" using assms(2) by (simp add: last_conv_nth)
  then have "\<not> length xs - 1 < ?m"
    using takeWhile_less_index [OF assms(1), of "length xs - 1" x] n by simp
  then have mn: "?m < length xs" using n by linarith
  have "j \<le> ?m \<Longrightarrow> scanHi xs (Num x) ?iMax (Num (real j)) = Num (real ?m)"
  proof (induction "?m - j" arbitrary: j)
    case 0
    then have j: "j = ?m" by simp
    then have "\<not> xs ! j < x" using takeWhile_less_index [OF assms(1), of j x] mn by simp
    moreover have "elemAt xs (Num (real j)) = Num (xs ! j)"
      using j mn by (simp only: elemAt_nat if_True)
    ultimately show ?case using j by (subst scanHi.simps) (simp del: elemAt.simps)
  next
    case (Suc d)
    then have jm: "j < ?m" by simp
    then have jn: "j < length xs" "Suc j < length xs" using mn by simp_all
    have lt: "xs ! j < x" using takeWhile_less_index [OF assms(1) jn(1), of x] jm by simp
    have e: "elemAt xs (Num (real j)) = Num (xs ! j)"
      using jn by (simp only: elemAt_nat if_True)
    have c: "js_lt (Num (real j)) ?iMax" using jn(2) by simp
    have a: "js_add (Num (real j)) (Num 1) = Num (real (Suc j))"
      using jn(1) assms(5) by (intro index_succ) simp
    have "scanHi xs (Num x) ?iMax (Num (real j)) = scanHi xs (Num x) ?iMax (Num (real (Suc j)))"
      using lt c by (subst scanHi.simps) (simp only: e a js_lt.simps if_True simp_thms)
    moreover have "scanHi xs (Num x) ?iMax (Num (real (Suc j))) = Num (real ?m)"
      using Suc.hyps(2) jm by (intro Suc.hyps(1)) simp_all
    ultimately show ?case by simp
  qed
  with assms(4) hi show ?thesis by simp
qed


section \<open>The blend\<close>




lemma interpolateColor_interior:
  assumes "x_values this = Some xs" and "r_values this = Some rs"
    and "g_values this = Some gs" and "b_values this = Some bs"
    and "js_div (js_sub (Num val) (Num (fst (x_range this))))
                (js_sub (Num (snd (x_range this))) (Num (fst (x_range this)))) = X"
    and "\<not> js_le X (Num 0)" and "\<not> js_ge X (Num 1)"
    and "scanLo xs X (Math_ceil (js_mul X (Num (real (length xs) - 1)))) = iLo"
    and "scanHi xs X (Num (real (length xs) - 1)) iLo = iHi"
  shows "interpolateColor rainbow this val format =
     (if js_eq iLo iHi then (lookupColor this iLo format, this)
      else (formatColor
         [enforceBounds (js_add (elemAt rs iLo)
            (js_mul (js_div (js_sub X (elemAt xs iLo))
               (Math_abs (js_sub (elemAt xs (js_add iLo (Num 1))) (elemAt xs iLo))))
              (js_sub (elemAt rs (js_add iLo (Num 1))) (elemAt rs iLo)))),
          enforceBounds (js_add (elemAt gs iLo)
            (js_mul (js_div (js_sub X (elemAt xs iLo))
               (Math_abs (js_sub (elemAt xs (js_add iLo (Num 1))) (elemAt xs iLo))))
              (js_sub (elemAt gs (js_add iLo (Num 1))) (elemAt gs iLo)))),
          enforceBounds (js_add (elemAt bs iLo)
            (js_mul (js_div (js_sub X (elemAt xs iLo))
               (Math_abs (js_sub (elemAt xs (js_add iLo (Num 1))) (elemAt xs iLo))))
              (js_sub (elemAt bs (js_add iLo (Num 1))) (elemAt bs iLo))))]
         format, this))"
  unfolding interpolateColor_def
  by (simp only: assms option.simps if_False prod.case option.case Let_def)








lemma two_point_state:
  "x_values (loaded [Point 0 r0 g0 b0, Point 1 r1 g1 b1]) = Some [0, 1]"
  "r_values (loaded [Point 0 r0 g0 b0, Point 1 r1 g1 b1]) = Some [r0, r1]"
  "g_values (loaded [Point 0 r0 g0 b0, Point 1 r1 g1 b1]) = Some [g0, g1]"
  "b_values (loaded [Point 0 r0 g0 b0, Point 1 r1 g1 b1]) = Some [b0, b1]"
  "x_range (loaded [Point 0 r0 g0 b0, Point 1 r1 g1 b1]) = (0, 1)"
  by (simp_all add: loaded_def newColorMap_def inputColorSeries_def)

lemma default_position:
  "0 < v \<Longrightarrow> v < 1 \<Longrightarrow> js_div (js_sub (Num v) (Num 0)) (js_sub (Num 1) (Num 0)) = Num v"
  "v \<le> 0 \<Longrightarrow> js_le (js_div (js_sub (Num v) (Num 0)) (js_sub (Num 1) (Num 0))) (Num 0)"
  "1 \<le> v \<Longrightarrow> \<not> js_le (js_div (js_sub (Num v) (Num 0)) (js_sub (Num 1) (Num 0))) (Num 0)"
  "1 \<le> v \<Longrightarrow> js_ge (js_div (js_sub (Num v) (Num 0)) (js_sub (Num 1) (Num 0))) (Num 1)"
proof -
  have one: "js_sub (Num 1) (Num 0) = Num 1" by (simp add: js_sub_def fin_million)
  have b: "(1 :: real) < overflowBound" using overflowBound_big by (simp add: overflowBound_def)
  show "0 < v \<Longrightarrow> v < 1 \<Longrightarrow> js_div (js_sub (Num v) (Num 0)) (js_sub (Num 1) (Num 0)) = Num v"
    unfolding one by (simp add: js_sub_def fin_million)
  show "v \<le> 0 \<Longrightarrow> js_le (js_div (js_sub (Num v) (Num 0)) (js_sub (Num 1) (Num 0))) (Num 0)"
    unfolding one using b by (simp add: js_sub_def fin_def)
  show "1 \<le> v \<Longrightarrow> \<not> js_le (js_div (js_sub (Num v) (Num 0)) (js_sub (Num 1) (Num 0))) (Num 0)"
    unfolding one using b by (simp add: js_sub_def fin_def)
  show "1 \<le> v \<Longrightarrow> js_ge (js_div (js_sub (Num v) (Num 0)) (js_sub (Num 1) (Num 0))) (Num 1)"
    unfolding one using b by (simp add: js_sub_def fin_def js_ge_def)
qed

lemma two_point_search:
  assumes "0 < v" "v < 1"
  shows "scanLo [0, 1] (Num v) (Math_ceil (js_mul (Num v) (Num (real (length [0, 1 :: real]) - 1))))
         = Num 0"
    and "scanHi [0, 1] (Num v) (Num (real (length [0, 1 :: real]) - 1)) (Num 0) = Num 1"
proof -
  have c: "\<lceil>v\<rceil> = 1" using assms by (simp add: ceiling_eq_iff)
  show "scanLo [0, 1] (Num v) (Math_ceil (js_mul (Num v) (Num (real (length [0, 1 :: real]) - 1))))
         = Num 0"
    using assms c by (simp add: scanLo.simps js_gt_def js_sub_def fin_million)
  show "scanHi [0, 1] (Num v) (Num (real (length [0, 1 :: real]) - 1)) (Num 0) = Num 1"
    using assms by (simp add: scanHi.simps fin_million)
qed

lemma two_point_interior:
  assumes "0 < v" "v < 1"
  shows "interpolateColor rainbow (loaded [Point 0 r0 g0 b0, Point 1 r1 g1 b1]) v DOUBLE
     = (Inr (Channels
          [enforceBounds (js_add (Num r0) (js_mul (Num v) (js_sub (Num r1) (Num r0)))),
           enforceBounds (js_add (Num g0) (js_mul (Num v) (js_sub (Num g1) (Num g0)))),
           enforceBounds (js_add (Num b0) (js_mul (Num v) (js_sub (Num b1) (Num b0))))]),
        loaded [Point 0 r0 g0 b0, Point 1 r1 g1 b1])"
proof -
  let ?t = "loaded [Point 0 r0 g0 b0, Point 1 r1 g1 b1]"
  have x: "js_div (js_sub (Num v) (Num (fst (x_range ?t))))
              (js_sub (Num (snd (x_range ?t))) (Num (fst (x_range ?t)))) = Num v"
    using default_position(1) [OF assms] by (simp add: two_point_state)
  have nb: "\<not> js_le (Num v) (Num 0)" "\<not> js_ge (Num v) (Num 1)"
    using assms by (simp_all add: js_ge_def)
  have w: "js_div (js_sub (Num v) (Num 0)) (Math_abs (js_sub (Num 1) (Num 0))) = Num v"
    using assms by (simp add: js_sub_def fin_million)
  have i: "js_add (Num 0) (Num 1) = Num 1" by (simp add: fin_million)
  have ne: "\<not> js_eq (Num 0) (Num 1)" by simp
  show ?thesis
    using interpolateColor_interior [OF two_point_state(1-4) x nb two_point_search [OF assms],
        of rainbow DOUBLE] ne
    by (simp only: if_False i formatColor_DOUBLE) (simp add: w)
qed







section \<open>Positions in the input range\<close>


lemma width_Num:
  "- overflowBound < d \<Longrightarrow> d < overflowBound \<Longrightarrow> js_sub (Num (lo + d)) (Num lo) = Num d"
  by (simp add: js_sub_def fin_Num)

lemma overflowBound_pos: "0 < overflowBound"
  by (simp add: overflowBound_def)

lemma quotient_low:
  assumes "0 < d" "n \<le> 0"
  shows "js_le (js_div (fin n) (Num d)) (Num 0)"
proof -
  have q: "n / d \<le> 0" using assms by (simp add: divide_le_0_iff)
  have b: "\<not> overflowBound \<le> n" "\<not> overflowBound \<le> n / d"
    using assms(2) q overflowBound_pos by linarith+
  show ?thesis
  proof (cases "n \<le> - overflowBound")
    case True
    then show ?thesis using assms(1) b by (simp add: fin_def)
  next
    case False
    then show ?thesis using assms(1) b q by (simp add: fin_def del: divide_le_0_iff)
  qed
qed

lemma quotient_high:
  assumes "0 < d" "d \<le> n"
  shows "\<not> js_le (js_div (fin n) (Num d)) (Num 0)"
    and "js_ge (js_div (fin n) (Num d)) (Num 1)"
proof -
  have q: "1 \<le> n / d" using assms by (simp add: le_divide_eq)
  have b: "\<not> n \<le> - overflowBound" "\<not> n / d \<le> - overflowBound" "\<not> n / d \<le> 0"
    using assms q overflowBound_pos by linarith+
  have r: "\<not> js_le (js_div (fin n) (Num d)) (Num 0) \<and> js_ge (js_div (fin n) (Num d)) (Num 1)"
  proof (cases "overflowBound \<le> n")
    case True
    then show ?thesis using assms(1) b by (simp add: fin_def js_ge_def)
  next
    case False
    then show ?thesis using assms(1) b q
      by (simp add: fin_def js_ge_def del: divide_le_0_iff le_divide_eq_1_pos)
  qed
  show "\<not> js_le (js_div (fin n) (Num d)) (Num 0)" using r by (rule conjunct1)
  show "js_ge (js_div (fin n) (Num d)) (Num 1)" using r by (rule conjunct2)
qed

lemma position_low:
  assumes "0 < d" "d < overflowBound" "val \<le> lo"
  shows "js_le (js_div (js_sub (Num val) (Num lo)) (js_sub (Num (lo + d)) (Num lo))) (Num 0)"
proof -
  have d: "js_sub (Num (lo + d)) (Num lo) = Num d"
    using assms(1,2) overflowBound_pos by (intro width_Num) linarith+
  have n: "js_sub (Num val) (Num lo) = fin (val - lo)" by (simp add: js_sub_def)
  show ?thesis
    unfolding d n using assms(1,3) by (intro quotient_low) simp_all
qed

lemma position_high:
  assumes "0 < d" "d < overflowBound" "lo + d \<le> val"
  shows "\<not> js_le (js_div (js_sub (Num val) (Num lo)) (js_sub (Num (lo + d)) (Num lo))) (Num 0)"
    and "js_ge (js_div (js_sub (Num val) (Num lo)) (js_sub (Num (lo + d)) (Num lo))) (Num 1)"
proof -
  have d: "js_sub (Num (lo + d)) (Num lo) = Num d"
    using assms(1,2) overflowBound_pos by (intro width_Num) linarith+
  have n: "js_sub (Num val) (Num lo) = fin (val - lo)" by (simp add: js_sub_def)
  have v: "d \<le> val - lo" using assms(3) by simp
  show "\<not> js_le (js_div (js_sub (Num val) (Num lo)) (js_sub (Num (lo + d)) (Num lo))) (Num 0)"
    unfolding d n by (rule quotient_high(1) [OF assms(1) v])
  show "js_ge (js_div (js_sub (Num val) (Num lo)) (js_sub (Num (lo + d)) (Num lo))) (Num 1)"
    unfolding d n by (rule quotient_high(2) [OF assms(1) v])
qed

lemma ramp_interior:
  assumes "0 < v" "v < 1"
  shows "interpolateColor rainbow (loaded rampSeries) v DOUBLE
         = (Inr (Channels [Num v, Num v, Num v]), loaded rampSeries)"
proof -
  have "enforceBounds (js_add (Num 0) (js_mul (Num v) (js_sub (Num 1) (Num 0)))) = Num v"
    using assms by (simp add: js_sub_def fin_million enforceBounds_Num)
  then show ?thesis
    unfolding rampSeries_def
    using two_point_interior [OF assms, of rainbow 0 0 0 1 1 1] by simp
qed


lemma position_min:
  assumes "d < 0" "- overflowBound < d"
  shows "js_le (js_div (js_sub (Num lo) (Num lo)) (js_sub (Num (lo + d)) (Num lo))) (Num 0)"
proof -
  have d: "js_sub (Num (lo + d)) (Num lo) = Num d"
    using assms overflowBound_pos by (intro width_Num) linarith+
  have n: "js_sub (Num lo) (Num lo) = Num 0" by (simp add: js_sub_def fin_million)
  show ?thesis
    unfolding d n using assms(1) by (simp add: fin_million)
qed

lemma position_max:
  assumes "d < 0" "- overflowBound < d"
  shows "\<not> js_le (js_div (js_sub (Num (lo + d)) (Num lo)) (js_sub (Num (lo + d)) (Num lo))) (Num 0)"
    and "js_ge (js_div (js_sub (Num (lo + d)) (Num lo)) (js_sub (Num (lo + d)) (Num lo))) (Num 1)"
proof -
  have d: "js_sub (Num (lo + d)) (Num lo) = Num d"
    using assms overflowBound_pos by (intro width_Num) linarith+
  show "\<not> js_le (js_div (js_sub (Num (lo + d)) (Num lo)) (js_sub (Num (lo + d)) (Num lo))) (Num 0)"
    unfolding d using assms(1) by (simp add: fin_million)
  show "js_ge (js_div (js_sub (Num (lo + d)) (Num lo)) (js_sub (Num (lo + d)) (Num lo))) (Num 1)"
    unfolding d using assms(1) by (simp add: fin_million js_ge_def)
qed

lemma position_value:
  assumes "d \<noteq> 0" "\<bar>d\<bar> < overflowBound" "\<bar>val - lo\<bar> < overflowBound"
    and "\<bar>(val - lo) / d\<bar> < overflowBound"
  shows "js_div (js_sub (Num val) (Num lo)) (js_sub (Num (lo + d)) (Num lo)) = Num ((val - lo) / d)"
proof -
  have d: "js_sub (Num (lo + d)) (Num lo) = Num d"
    using assms(2) by (intro width_Num) linarith+
  have "fin (val - lo) = Num (val - lo)"
    using assms(3) by (intro fin_Num) linarith+
  then have n: "js_sub (Num val) (Num lo) = Num (val - lo)"
    by (simp add: js_sub_def)
  have q: "fin ((val - lo) / d) = Num ((val - lo) / d)"
    using assms(4) by (intro fin_Num) linarith+
  show ?thesis
    unfolding d n using assms(1) q by simp
qed

lemma position_default:
  assumes "\<bar>q\<bar> < overflowBound"
  shows "js_div (js_sub (Num q) (Num 0)) (js_sub (Num 1) (Num 0)) = Num q"
proof -
  have "fin q = Num q" using assms by (intro fin_Num) linarith+
  then show ?thesis by (simp add: js_sub_def fin_million)
qed

lemma fin_mono: "a \<le> b \<Longrightarrow> js_le (fin a) (fin b)"
  using overflowBound_pos by (simp add: fin_def)

lemma quotient_antimono:
  assumes "d < 0" "a \<le> b"
  shows "js_le (js_div (fin b) (Num d)) (js_div (fin a) (Num d))"
proof -
  have q: "b / d \<le> a / d" using assms(1) by (intro divide_right_mono_neg [OF assms(2)]) simp
  have m: "js_le (fin (b / d)) (fin (a / d))" using q by (rule fin_mono)
  consider (low) "a \<le> - overflowBound" | (high) "overflowBound \<le> b"
    | (mid) "- overflowBound < a" "b < overflowBound"
    by linarith
  then show ?thesis
  proof cases
    case low
    then have "fin a = NInf" using overflowBound_pos by (simp add: fin_def)
    then show ?thesis using assms(1) overflowBound_pos by (simp add: fin_def)
  next
    case high
    then have "fin b = PInf" by (simp add: fin_def)
    then show ?thesis using assms(1) overflowBound_pos by (simp add: fin_def)
  next
    case mid
    then have "fin a = Num a" "fin b = Num b"
      using assms(2) by (simp_all add: fin_def)
    then show ?thesis using assms(1) m by simp
  qed
qed

lemma position_antimono:
  assumes "d < 0" "- overflowBound < d" "v \<le> w"
  shows "js_le (js_div (js_sub (Num w) (Num lo)) (js_sub (Num (lo + d)) (Num lo)))
               (js_div (js_sub (Num v) (Num lo)) (js_sub (Num (lo + d)) (Num lo)))"
proof -
  have d: "js_sub (Num (lo + d)) (Num lo) = Num d"
    using assms(1,2) overflowBound_pos by (intro width_Num) linarith+
  have n: "js_sub (Num w) (Num lo) = fin (w - lo)" "js_sub (Num v) (Num lo) = fin (v - lo)"
    by (simp_all add: js_sub_def)
  show ?thesis
    unfolding d n using assms(3) by (intro quotient_antimono [OF assms(1)]) simp
qed


lemma ceiling_half: "\<lceil>1 / 2 :: real\<rceil> = 1"
  by (simp add: ceiling_eq_iff)

section \<open>The claims\<close>

lemmas run = loaded_def newColorMap_def inputColorSeries_def setInputRange_def
  interpolateColor_def Let_def js_ge_def js_gt_def js_sub_def scanLo.simps scanHi.simps
  lookupColor_def formatColor_def enforceBounds_def fin_million

text \<open>
  C1. Claimed: for every series that meets the invariants and every position strictly
  between 0 and 1, the bracket search ends with \<open>position[iLo] <= x <= position[iHi]\<close> and
  \<open>iHi = iLo + 1\<close> (or \<open>iLo = iHi\<close> on an exact hit), the result is the blend between those
  two points, and the scan agrees with a binary search. The code starts at
  \<open>ceil (x * iMax)\<close> and moves \<open>iLo\<close> downwards only. On \<open>lowSeries\<close>, which meets the
  invariants, the start index for \<open>x = 1/2\<close> is 3, two points below the bracket (4, 5):
  \<open>iLo\<close> stays 3, \<open>iHi\<close> runs to 5, the assignment inside \<open>console.assert\<close> sets
  \<open>iHi\<close> to 4, and the code extrapolates from the points 3 and 4, whose positions are
  both below \<open>x\<close>. It returns red 0 where the blend over the bracket is 1/3.
\<close>

theorem bracket_search_low_seed:
  "x_values (loaded lowSeries) = Some [0, 1 / 16, 1 / 8, 3 / 16, 1 / 4, 1]
   \<and> r_values (loaded lowSeries) = Some [0, 0, 0, 0, 0, 1]
   \<and> sorted_wrt (<) [0, 1 / 16, 1 / 8, 3 / 16, 1 / 4, 1 :: real]
   \<and> Math_ceil (js_mul (Num (1 / 2)) (Num 5)) = Num 3
   \<and> scanLo [0, 1 / 16, 1 / 8, 3 / 16, 1 / 4, 1] (Num (1 / 2)) (Num 3) = Num 3
   \<and> scanHi [0, 1 / 16, 1 / 8, 3 / 16, 1 / 4, 1] (Num (1 / 2)) (Num 5) (Num 3) = Num 5
   \<and> specBracket [0, 1 / 16, 1 / 8, 3 / 16, 1 / 4, 1] (1 / 2) = (4, 5)
   \<and> interpolateColor rainbow (loaded lowSeries) (1 / 2) DOUBLE
       = (Inr (Channels [Num 0, Num 0, Num (1 / 2)]), loaded lowSeries)
   \<and> specBlend [0, 1 / 16, 1 / 8, 3 / 16, 1 / 4, 1] [0, 0, 0, 0, 0, 1] (1 / 2) = 1 / 3"
  by (simp add: run lowSeries_def specBracket_def specBlend_def)

text \<open>
  C2. Claimed: a value whose normalized position equals a stored position exactly gets
  that control point's color, by the direct lookup. On \<open>lowSeries\<close> the position 1/4 is
  the position of point 4, whose color is (0, 0, 1/2). The start index is 2; \<open>iLo\<close> stays
  2, \<open>iHi\<close> stops at 4, the two differ, \<open>iHi\<close> is reset to 3, and the code blends the
  points 2 and 3 with factor 2: it returns (0, 1, 1/2). The defect is the one of C1.
\<close>

theorem exact_hit_low_seed:
  "x_values (loaded lowSeries) = Some [0, 1 / 16, 1 / 8, 3 / 16, 1 / 4, 1]
   \<and> Math_ceil (js_mul (Num (1 / 4)) (Num 5)) = Num 2
   \<and> scanLo [0, 1 / 16, 1 / 8, 3 / 16, 1 / 4, 1] (Num (1 / 4)) (Num 2) = Num 2
   \<and> scanHi [0, 1 / 16, 1 / 8, 3 / 16, 1 / 4, 1] (Num (1 / 4)) (Num 5) (Num 2) = Num 4
   \<and> specBracket [0, 1 / 16, 1 / 8, 3 / 16, 1 / 4, 1] (1 / 4) = (4, 4)
   \<and> lookupColor (loaded lowSeries) (Num 4) DOUBLE = Inr (Channels [Num 0, Num 0, Num (1 / 2)])
   \<and> interpolateColor rainbow (loaded lowSeries) (1 / 4) DOUBLE
       = (Inr (Channels [Num 0, Num 1, Num (1 / 2)]), loaded lowSeries)"
  by (simp add: run lowSeries_def specBracket_def)







text \<open>
  C4. Claimed: a load that fails partway changes none of the four sequences and not the
  input range. \<open>inputColorSeries\<close> assigns four empty arrays to the fields first and
  pushes onto them element by element. With \<open>smallSeries\<close> loaded, loading an array
  whose second element is \<open>[1]\<close> throws a \<open>TypeError\<close> after the six-point series has
  been replaced: the positions are then \<open>[0, 1]\<close> and each channel has one value.
\<close>

theorem load_not_atomic_example:
  "inputColorSeries [Point 0 1 1 1, Bare 1] (loaded smallSeries)
     = (Some TypeError,
        (loaded smallSeries)\<lparr>x_values := Some [0, 1], r_values := Some [1],
                               g_values := Some [1], b_values := Some [1]\<rparr>)
   \<and> x_values (loaded smallSeries) = Some [0, 2 / 10, 4 / 10, 6 / 10, 8 / 10, 1]
   \<and> snd (inputColorSeries [Point 0 1 1 1, Bare 1] (loaded smallSeries)) \<noteq> loaded smallSeries"
  by (simp add: loaded_def newColorMap_def inputColorSeries_def smallSeries_def)

text \<open>
  C4, amended. A load by name that fails with \<open>NotFound\<close> leaves the instance as it
  was. A raw load of well-formed points never fails and replaces the four sequences
  together. A raw load that meets an element without a color array, or a missing element,
  throws a \<open>TypeError\<close> and leaves the sequences reset and holding the points before that
  element (and the position of an element \<open>[x]\<close>). No load, failed or not, changes the
  input range.
\<close>

theorem load_failure_frame:
  "(fst (useColorSeries rainbow name this) = Some NotFound
      \<longrightarrow> snd (useColorSeries rainbow name this) = this)
   \<and> inputColorSeries (map (\<lambda>(x, r, g, b). Point x r g b) pts) this
       = (None, this\<lparr>x_values := Some (map fst pts),
                      r_values := Some (map (fst \<circ> snd) pts),
                      g_values := Some (map (fst \<circ> snd \<circ> snd) pts),
                      b_values := Some (map (snd \<circ> snd \<circ> snd) pts)\<rparr>)
   \<and> inputColorSeries (map (\<lambda>(x, r, g, b). Point x r g b) pts @ Bare x # rest) this
       = (Some TypeError, this\<lparr>x_values := Some (map fst pts @ [x]),
                      r_values := Some (map (fst \<circ> snd) pts),
                      g_values := Some (map (fst \<circ> snd \<circ> snd) pts),
                      b_values := Some (map (snd \<circ> snd \<circ> snd) pts)\<rparr>)
   \<and> inputColorSeries (map (\<lambda>(x, r, g, b). Point x r g b) pts @ Missing # rest) this
       = (Some TypeError, this\<lparr>x_values := Some (map fst pts),
                      r_values := Some (map (fst \<circ> snd) pts),
                      g_values := Some (map (fst \<circ> snd \<circ> snd) pts),
                      b_values := Some (map (snd \<circ> snd \<circ> snd) pts)\<rparr>)
   \<and> x_range (snd (inputColorSeries values this)) = x_range this
   \<and> x_range (snd (useColorSeries rainbow name this)) = x_range this"
proof -
  have a: "fst (useColorSeries rainbow name this) = Some NotFound
      \<longrightarrow> snd (useColorSeries rainbow name this) = this"
    using inputColorSeries_error by (simp add: useColorSeries_def Let_def)
  have b: "inputColorSeries (map (\<lambda>(x, r, g, b). Point x r g b) pts) this
       = (None, this\<lparr>x_values := Some (map fst pts),
                      r_values := Some (map (fst \<circ> snd) pts),
                      g_values := Some (map (fst \<circ> snd \<circ> snd) pts),
                      b_values := Some (map (snd \<circ> snd \<circ> snd) pts)\<rparr>)"
    using pushAll_points [of pts "[]" "[]" "[]" "[]" "[]"]
    by (simp add: inputColorSeries_def)
  have c: "inputColorSeries (map (\<lambda>(x, r, g, b). Point x r g b) pts @ Bare x # rest) this
       = (Some TypeError, this\<lparr>x_values := Some (map fst pts @ [x]),
                      r_values := Some (map (fst \<circ> snd) pts),
                      g_values := Some (map (fst \<circ> snd \<circ> snd) pts),
                      b_values := Some (map (snd \<circ> snd \<circ> snd) pts)\<rparr>)"
    by (simp add: inputColorSeries_def pushAll_points)
  have d: "inputColorSeries (map (\<lambda>(x, r, g, b). Point x r g b) pts @ Missing # rest) this
       = (Some TypeError, this\<lparr>x_values := Some (map fst pts),
                      r_values := Some (map (fst \<circ> snd) pts),
                      g_values := Some (map (fst \<circ> snd \<circ> snd) pts),
                      b_values := Some (map (snd \<circ> snd \<circ> snd) pts)\<rparr>)"
    by (simp add: inputColorSeries_def pushAll_points)
  show ?thesis
    using a b c d inputColorSeries_range useColorSeries_range by blast
qed

theorem load_failure_frame_witness:
  "fst (useColorSeries [] ''viridis'' (loaded smallSeries)) = Some NotFound
   \<and> snd (useColorSeries [] ''viridis'' (loaded smallSeries)) = loaded smallSeries"
proof -
  have "fst (useColorSeries [] ''viridis'' (loaded smallSeries)) = Some NotFound"
    by (simp add: useColorSeries_def inTable_def ColorSeriesTable_def ObjectPrototypeNames_def)
  with load_failure_frame [of "[]" "''viridis''" "loaded smallSeries"] show ?thesis
    by blast
qed


text \<open>
  C5. Claimed: when \<open>min < max\<close>, for every loaded series with at least two points, every
  value \<open>\<le> min\<close> gets the color of the first control point and every value \<open>\<ge> max\<close> the
  color of the last one. The code computes \<open>val - min\<close> and \<open>max - min\<close> in doubles. With
  the range [-2^1023, 2^1023], whose ends are finite doubles, and the six-point series
  loaded, both differences overflow for the value 2^1023 = \<open>max\<close>: the position is
  \<open>Infinity / Infinity = NaN\<close>, both boundary tests are false, and the DOUBLE output is
  (NaN, NaN, NaN), not the last color (1, 6/10, 1/2).
\<close>


theorem boundary_clamp_overflow:
  "interpolateColor [] (setInputRange (- (2 ^ 1023), 2 ^ 1023) (loaded smallSeries)) (2 ^ 1023) DOUBLE
     = (Inr (Channels [NaN, NaN, NaN]),
        setInputRange (- (2 ^ 1023), 2 ^ 1023) (loaded smallSeries))
   \<and> (- (2 ^ 1023) :: real) < 2 ^ 1023
   \<and> (2 ^ 1023 :: real) \<le> 2 ^ 1024 - 2 ^ 971
   \<and> js_sub (Num (2 ^ 1023)) (Num (- (2 ^ 1023))) = PInf
   \<and> lookupColor (loaded smallSeries) (Num 5) DOUBLE
       = Inr (Channels [Num 1, Num (6 / 10), Num (50 / 100)])"
  by (simp add: run smallSeries_def fin_def overflowBound_def)


text \<open>
  C5, amended. Let a series be loaded with at least two points in four sequences of one
  length, and let the input range have \<open>min < max\<close> and a width \<open>max - min\<close> that does not
  overflow. Then every value \<open>\<le> min\<close> gets the color of the first control point and
  every value \<open>\<ge> max\<close> the color of the last one, in the requested format. The tests are
  exact: with the two-point ramp from (0, 0, 0) at position 0 to (1, 1, 1) at position 1
  and the default range, every value \<open>v\<close> strictly between 0 and 1 gets (v, v, v),
  however close to 0 or to 1 it is.
\<close>


theorem boundary_clamp:
  assumes "x_values this = Some xs" and "r_values this = Some rs"
    and "g_values this = Some gs" and "b_values this = Some bs"
    and "2 \<le> length xs"
    and "length rs = length xs" "length gs = length xs" "length bs = length xs"
    and "x_range this = (lo, hi)" and "lo < hi" and "hi - lo < overflowBound"
  shows "(val \<le> lo \<longrightarrow> interpolateColor rainbow this val format
            = (formatColor [Num (rs ! 0), Num (gs ! 0), Num (bs ! 0)] format, this))
       \<and> (hi \<le> val \<longrightarrow> interpolateColor rainbow this val format
            = (formatColor [Num (last rs), Num (last gs), Num (last bs)] format, this))
       \<and> (0 < v \<and> v < 1 \<longrightarrow>
            interpolateColor rainbow (loaded rampSeries) v DOUBLE
              = (Inr (Channels [Num v, Num v, Num v]), loaded rampSeries))"
proof (intro conjI impI)
  have ne: "xs \<noteq> []" using assms(5) by auto
  have d: "0 < hi - lo" using assms(10) by simp
  have fs: "fst (x_range this) = lo" "snd (x_range this) = lo + (hi - lo)"
    using assms(9) by simp_all
  {
    assume "val \<le> lo"
    then have "js_le (js_div (js_sub (Num val) (Num (fst (x_range this))))
              (js_sub (Num (snd (x_range this))) (Num (fst (x_range this))))) (Num 0)"
      unfolding fs by (rule position_low [OF d assms(11)])
    from interpolateColor_first [OF assms(1) this, of rainbow format]
    show "interpolateColor rainbow this val format
            = (formatColor [Num (rs ! 0), Num (gs ! 0), Num (bs ! 0)] format, this)"
      by (simp only: lookupColor_first [OF assms(2-4) ne assms(6-8)])
  }
  {
    assume "hi \<le> val"
    then have v: "lo + (hi - lo) \<le> val" by simp
    have "\<not> js_le (js_div (js_sub (Num val) (Num (fst (x_range this))))
              (js_sub (Num (snd (x_range this))) (Num (fst (x_range this))))) (Num 0)"
      "js_ge (js_div (js_sub (Num val) (Num (fst (x_range this))))
              (js_sub (Num (snd (x_range this))) (Num (fst (x_range this))))) (Num 1)"
      unfolding fs by (rule position_high [OF d assms(11) v])+
    from interpolateColor_last [OF assms(1) this, of rainbow format]
    show "interpolateColor rainbow this val format
            = (formatColor [Num (last rs), Num (last gs), Num (last bs)] format, this)"
      by (simp only: lookupColor_last [OF assms(2-4) ne assms(6-8)])
  }
  {
    assume "0 < v \<and> v < 1"
    then have "0 < v" "v < 1" by simp_all
    then show "interpolateColor rainbow (loaded rampSeries) v DOUBLE
              = (Inr (Channels [Num v, Num v, Num v]), loaded rampSeries)"
      by (rule ramp_interior)
  }
qed


theorem boundary_clamp_witness:
  "interpolateColor [] (loaded smallSeries) (- 1 / 10) DOUBLE
     = (Inr (Channels [Num 0, Num (6 / 10), Num (55 / 100)]), loaded smallSeries)
   \<and> interpolateColor [] (loaded smallSeries) (11 / 10) DOUBLE
     = (Inr (Channels [Num 1, Num (6 / 10), Num (50 / 100)]), loaded smallSeries)
   \<and> interpolateColor [] (loaded rampSeries) (1 / 1000) DOUBLE
     = (Inr (Channels [Num (1 / 1000), Num (1 / 1000), Num (1 / 1000)]), loaded rampSeries)"
proof -
  let ?xs = "[0, 2 / 10, 4 / 10, 6 / 10, 8 / 10, 1 :: real]"
  have s: "x_values (loaded smallSeries) = Some ?xs"
      "r_values (loaded smallSeries) = Some [0, 2 / 10, 4 / 10, 6 / 10, 8 / 10, 1]"
      "g_values (loaded smallSeries) = Some [6 / 10, 4 / 10, 2 / 10, 2 / 10, 4 / 10, 6 / 10]"
      "b_values (loaded smallSeries)
         = Some [55 / 100, 54 / 100, 53 / 100, 52 / 100, 51 / 100, 50 / 100]"
    by (simp_all add: loaded_def newColorMap_def inputColorSeries_def smallSeries_def)
  have r: "x_range (loaded smallSeries) = (0, 1)"
    by (simp add: loaded_def newColorMap_def inputColorSeries_def smallSeries_def)
  have h: "2 \<le> length ?xs"
      "length [0, 2 / 10, 4 / 10, 6 / 10, 8 / 10, 1 :: real] = length ?xs"
      "length [6 / 10, 4 / 10, 2 / 10, 2 / 10, 4 / 10, 6 / 10 :: real] = length ?xs"
      "length [55 / 100, 54 / 100, 53 / 100, 52 / 100, 51 / 100, 50 / 100 :: real] = length ?xs"
      "(0 :: real) < 1" "(1 :: real) - 0 < overflowBound"
    by (simp_all add: overflowBound_def)
  note t = boundary_clamp [OF s h(1-4) r h(5,6)]
  have "(- 1 / 10 :: real) \<le> 0" by simp
  from t [THEN conjunct1, THEN mp, OF this, of "[]" DOUBLE]
  have a: "interpolateColor [] (loaded smallSeries) (- 1 / 10) DOUBLE
     = (Inr (Channels [Num 0, Num (6 / 10), Num (55 / 100)]), loaded smallSeries)"
    by (simp add: formatColor_def)
  have "(1 :: real) \<le> 11 / 10" by simp
  from t [THEN conjunct2, THEN conjunct1, THEN mp, OF this, of "[]" DOUBLE]
  have b: "interpolateColor [] (loaded smallSeries) (11 / 10) DOUBLE
     = (Inr (Channels [Num 1, Num (6 / 10), Num (50 / 100)]), loaded smallSeries)"
    by (simp add: formatColor_def)
  have "(0 :: real) < 1 / 1000 \<and> (1 / 1000 :: real) < 1" by simp
  note c = t [THEN conjunct2, THEN conjunct2, THEN mp, OF this, of "[]"]
  show ?thesis
    by (intro conjI) (rule a, rule b, rule c)
qed


text \<open>
  C6. Claimed: for every state and input value the RGB output is 255 times the DOUBLE
  output rounded channel-wise with ties away from zero, each integer within [0, 255], and
  the HEX output renders those integers as two hexadecimal digits each. \<open>Math.round\<close>
  rounds a tie upwards, and a stored channel outside [0, 1] reaches the formatter unclamped
  on a lookup branch. With \<open>outOfSpecSeries\<close> loaded, the value 0 gives the channels
  (2, -1/2, 0) and the integers (510, -127, 0): 510 exceeds 255, and -127 is not the
  rounding of -127.5 away from zero, which is -128. The HEX output keeps the last two
  characters of \<open>1fe\<close> and of \<open>-7f\<close>.
\<close>

theorem byte_out_of_range:
  "interpolateColor [] (loaded outOfSpecSeries) 0 DOUBLE
     = (Inr (Channels [Num 2, Num (- 1 / 2), Num 0]), loaded outOfSpecSeries)
   \<and> interpolateColor [] (loaded outOfSpecSeries) 0 RGB
     = (Inr (Channels [Num 510, Num (- 127), Num 0]), loaded outOfSpecSeries)
   \<and> interpolateColor [] (loaded outOfSpecSeries) 0 HEX
     = (Inr (HexString ''#fe7f00''), loaded outOfSpecSeries)
   \<and> (255 :: real) < 510
   \<and> roundHalfAwayFromZero (255 * (- 1 / 2)) = - 128"
  by (simp add: run outOfSpecSeries_def roundHalfAwayFromZero_def slice2_def hexNat.simps
        hexDigit_def)

text \<open>
  C6, amended. Whenever \<open>interpolateColor\<close> returns a DOUBLE triplet, the same call with
  RGB returns \<open>Math.round (255 * f)\<close> for each channel \<open>f\<close> of it (a tie is rounded
  upwards), and with HEX the character \<open>#\<close> followed, for each of those integers, by the
  last two characters of \<open>0\<close> and its hexadecimal form: always 7 characters. For a channel
  within [0, 1] the integer is the rounding of \<open>255 * f\<close> with ties away from zero, lies
  within [0, 255], and its two characters are its two lowercase hexadecimal digits.
\<close>

theorem byte_and_hex_of_fraction:
  assumes "interpolateColor rainbow this val DOUBLE = (Inr (Channels cs), t)"
  shows "interpolateColor rainbow this val RGB
           = (Inr (Channels (map (\<lambda>f. Math_round (js_mul (Num 255) f)) cs)), t)
       \<and> interpolateColor rainbow this val HEX
           = (Inr (HexString (CHR ''#'' # concat (map (\<lambda>f. slice2 (''0'' @ toString16
                  (Math_round (js_mul (Num 255) f)))) cs))), t)
       \<and> length (CHR ''#'' # concat (map (\<lambda>f. slice2 (''0'' @ toString16
                  (Math_round (js_mul (Num 255) f)))) cs)) = 7
       \<and> (0 \<le> a \<and> a \<le> 1 \<longrightarrow>
            (\<exists>k. Math_round (js_mul (Num 255) (Num a)) = Num (real k) \<and> k \<le> 255
                \<and> int k = roundHalfAwayFromZero (255 * a)
                \<and> slice2 (''0'' @ toString16 (Num (real k)))
                    = [hexDigit (k div 16), hexDigit (k mod 16)]))"
proof -
  have rgb: "interpolateColor rainbow this val RGB
           = (Inr (Channels (map (\<lambda>f. Math_round (js_mul (Num 255) f)) cs)), t)"
    by (subst interpolateColor_via_DOUBLE) (simp add: assms formatColor_def)
  have hex: "interpolateColor rainbow this val HEX
           = (Inr (HexString (CHR ''#'' # concat (map (\<lambda>f. slice2 (''0'' @ toString16
                  (Math_round (js_mul (Num 255) f)))) cs))), t)"
    by (subst interpolateColor_via_DOUBLE) (simp add: assms formatColor_def comp_def)
  obtain c1 c2 c3 where cs: "cs = [c1, c2, c3]"
    using interpolateColor_three [OF assms]
    by (cases cs; cases "tl cs"; cases "tl (tl cs)") auto
  have len: "length (CHR ''#'' # concat (map (\<lambda>f. slice2 (''0'' @ toString16
                  (Math_round (js_mul (Num 255) f)))) cs)) = 7"
    unfolding cs using slice2_length by (simp del: append.simps)
  show ?thesis
    using rgb hex len byte_of_fraction [of a] by blast
qed

theorem byte_and_hex_of_fraction_witness:
  "interpolateColor [] (loaded smallSeries) (6 / 10) RGB
     = (Inr (Channels [Num 153, Num 51, Num 133]), loaded smallSeries)
   \<and> interpolateColor [] (loaded smallSeries) (6 / 10) HEX
     = (Inr (HexString ''#993385''), loaded smallSeries)
   \<and> (\<exists>k. Math_round (js_mul (Num 255) (Num (6 / 10))) = Num (real k) \<and> k \<le> 255
          \<and> int k = roundHalfAwayFromZero (255 * (6 / 10))
          \<and> slice2 (''0'' @ toString16 (Num (real k)))
              = [hexDigit (k div 16), hexDigit (k mod 16)])"
proof -
  have d: "interpolateColor [] (loaded smallSeries) (6 / 10) DOUBLE
     = (Inr (Channels [Num (6 / 10), Num (2 / 10), Num (52 / 100)]), loaded smallSeries)"
    by (simp add: run smallSeries_def)
  show ?thesis
    using byte_and_hex_of_fraction [OF d, of "6 / 10"]
    by (simp add: slice2_def hexNat.simps hexDigit_def fin_million)
qed


text \<open>
  C7. Claimed: with a range \<open>min > max\<close> and a loaded series, the value \<open>min\<close> gets the
  color of the first control point, the value \<open>max\<close> the color of the last one, and the
  values between them the color at \<open>(val - min) / (max - min)\<close>. With the range
  [2^1023, -2^1023], whose ends are finite doubles, and the six-point series loaded,
  \<open>max - min\<close> overflows to \<open>-Infinity\<close>: the value -2^1023 = \<open>max\<close> has the position
  \<open>-Infinity / -Infinity = NaN\<close> and the DOUBLE output is (NaN, NaN, NaN), not the last
  color (1, 6/10, 1/2).
\<close>


theorem inverted_range_overflow:
  "interpolateColor [] (setInputRange (2 ^ 1023, - (2 ^ 1023)) (loaded smallSeries))
       (- (2 ^ 1023)) DOUBLE
     = (Inr (Channels [NaN, NaN, NaN]),
        setInputRange (2 ^ 1023, - (2 ^ 1023)) (loaded smallSeries))
   \<and> (- (2 ^ 1023) :: real) < 2 ^ 1023
   \<and> (2 ^ 1023 :: real) \<le> 2 ^ 1024 - 2 ^ 971
   \<and> js_sub (Num (- (2 ^ 1023))) (Num (2 ^ 1023)) = NInf
   \<and> lookupColor (loaded smallSeries) (Num 5) DOUBLE
       = Inr (Channels [Num 1, Num (6 / 10), Num (50 / 100)])"
  by (simp add: run smallSeries_def fin_def overflowBound_def)


text \<open>
  C7, amended. \<open>setInputRange\<close> stores a range with \<open>min > max\<close> as it stores any other.
  With such a range whose width \<open>min - max\<close> does not overflow, and a loaded series: the
  value \<open>min\<close> gets the color of the first control point and the value \<open>max\<close> the color
  of the last one; for a value whose difference \<open>val - min\<close> and quotient
  \<open>(val - min) / (max - min)\<close> do not overflow, the normalized position is that quotient
  and the value gets the color that the quotient gets under the default range [0, 1];
  the computed position of a value \<open>w\<close> is never above that of a value \<open>v \<le> w\<close>, and the
  exact quotient falls strictly as the value grows.
\<close>


theorem inverted_range:
  assumes "x_values this = Some xs" and "r_values this = Some rs"
    and "g_values this = Some gs" and "b_values this = Some bs"
    and "xs \<noteq> []"
    and "length rs = length xs" "length gs = length xs" "length bs = length xs"
    and "hi < lo" and "lo - hi < overflowBound"
  shows "x_range (setInputRange (lo, hi) this) = (lo, hi)
       \<and> interpolateColor rainbow (setInputRange (lo, hi) this) lo format
            = (formatColor [Num (rs ! 0), Num (gs ! 0), Num (bs ! 0)] format,
               setInputRange (lo, hi) this)
       \<and> interpolateColor rainbow (setInputRange (lo, hi) this) hi format
            = (formatColor [Num (last rs), Num (last gs), Num (last bs)] format,
               setInputRange (lo, hi) this)
       \<and> (\<bar>val - lo\<bar> < overflowBound \<and> \<bar>(val - lo) / (hi - lo)\<bar> < overflowBound \<longrightarrow>
            js_div (js_sub (Num val) (Num lo)) (js_sub (Num hi) (Num lo))
              = Num ((val - lo) / (hi - lo))
          \<and> fst (interpolateColor rainbow (setInputRange (lo, hi) this) val format)
              = fst (interpolateColor rainbow (setInputRange (0, 1) this)
                       ((val - lo) / (hi - lo)) format))
       \<and> (v \<le> w \<longrightarrow>
            js_le (js_div (js_sub (Num w) (Num lo)) (js_sub (Num hi) (Num lo)))
                  (js_div (js_sub (Num v) (Num lo)) (js_sub (Num hi) (Num lo))))
       \<and> (v < w \<longrightarrow> (w - lo) / (hi - lo) < (v - lo) / (hi - lo))"
proof (intro conjI impI)
  let ?t = "setInputRange (lo, hi) this"
  let ?u = "setInputRange (0, 1) this"
  have f: "x_values ?t = Some xs" "r_values ?t = Some rs" "g_values ?t = Some gs"
      "b_values ?t = Some bs"
    using assms(1-4) by (simp_all add: setInputRange_def)
  have u: "x_values ?u = Some xs" "r_values ?u = r_values ?t" "g_values ?u = g_values ?t"
      "b_values ?u = b_values ?t" "fst (x_range ?u) = 0" "snd (x_range ?u) = 1"
    using assms(1-4) by (simp_all add: setInputRange_def)
  have d: "hi - lo < 0" "- overflowBound < hi - lo" "hi - lo \<noteq> 0" "\<bar>hi - lo\<bar> < overflowBound"
    using assms(9,10) by simp_all
  have fs: "fst (x_range ?t) = lo" "snd (x_range ?t) = lo + (hi - lo)"
    by (simp_all add: setInputRange_def)
  have hi: "lo + (hi - lo) = hi" by simp
  show "x_range ?t = (lo, hi)" by (simp add: setInputRange_def)
  have "js_le (js_div (js_sub (Num lo) (Num (fst (x_range ?t))))
              (js_sub (Num (snd (x_range ?t))) (Num (fst (x_range ?t))))) (Num 0)"
    unfolding fs by (rule position_min [OF d(1,2)])
  from interpolateColor_first [OF f(1) this, of rainbow format]
  show "interpolateColor rainbow ?t lo format
          = (formatColor [Num (rs ! 0), Num (gs ! 0), Num (bs ! 0)] format, ?t)"
    by (simp only: lookupColor_first [OF f(2-4) assms(5-8)])
  have "\<not> js_le (js_div (js_sub (Num (lo + (hi - lo))) (Num (fst (x_range ?t))))
              (js_sub (Num (snd (x_range ?t))) (Num (fst (x_range ?t))))) (Num 0)"
      "js_ge (js_div (js_sub (Num (lo + (hi - lo))) (Num (fst (x_range ?t))))
              (js_sub (Num (snd (x_range ?t))) (Num (fst (x_range ?t))))) (Num 1)"
    unfolding fs by (rule position_max [OF d(1,2)])+
  from interpolateColor_last [OF f(1) this, of rainbow format]
  show "interpolateColor rainbow ?t hi format
          = (formatColor [Num (last rs), Num (last gs), Num (last bs)] format, ?t)"
    by (simp only: lookupColor_last [OF f(2-4) assms(5-8)] hi)
  {
    assume a: "\<bar>val - lo\<bar> < overflowBound \<and> \<bar>(val - lo) / (hi - lo)\<bar> < overflowBound"
    have p: "js_div (js_sub (Num val) (Num lo)) (js_sub (Num (lo + (hi - lo))) (Num lo))
              = Num ((val - lo) / (hi - lo))"
      using a by (intro position_value [OF d(3,4)]) simp_all
    then show "js_div (js_sub (Num val) (Num lo)) (js_sub (Num hi) (Num lo))
              = Num ((val - lo) / (hi - lo))"
      by (simp only: hi)
    have q: "js_div (js_sub (Num ((val - lo) / (hi - lo))) (Num 0)) (js_sub (Num 1) (Num 0))
              = Num ((val - lo) / (hi - lo))"
      using a by (intro position_default) simp
    show "fst (interpolateColor rainbow ?t val format)
          = fst (interpolateColor rainbow ?u ((val - lo) / (hi - lo)) format)"
      by (rule sym, rule interpolateColor_cong [OF f(1) u(1-4)])
        (simp only: u(5,6) fs p q)
  }
  {
    assume "v \<le> w"
    then have "js_le (js_div (js_sub (Num w) (Num lo)) (js_sub (Num (lo + (hi - lo))) (Num lo)))
               (js_div (js_sub (Num v) (Num lo)) (js_sub (Num (lo + (hi - lo))) (Num lo)))"
      by (rule position_antimono [OF d(1,2)])
    then show "js_le (js_div (js_sub (Num w) (Num lo)) (js_sub (Num hi) (Num lo)))
                  (js_div (js_sub (Num v) (Num lo)) (js_sub (Num hi) (Num lo)))"
      by (simp only: hi)
  }
  {
    assume "v < w"
    then show "(w - lo) / (hi - lo) < (v - lo) / (hi - lo)"
      using d(1) by (simp add: divide_strict_right_mono_neg)
  }
qed


theorem inverted_range_witness:
  "interpolateColor [] (setInputRange (160, - 40) (loaded smallSeries)) 160 DOUBLE
     = (Inr (Channels [Num 0, Num (6 / 10), Num (55 / 100)]),
        setInputRange (160, - 40) (loaded smallSeries))
   \<and> interpolateColor [] (setInputRange (160, - 40) (loaded smallSeries)) (- 40) DOUBLE
     = (Inr (Channels [Num 1, Num (6 / 10), Num (50 / 100)]),
        setInputRange (160, - 40) (loaded smallSeries))
   \<and> js_div (js_sub (Num 60) (Num 160)) (js_sub (Num (- 40)) (Num 160)) = Num (1 / 2)
   \<and> fst (interpolateColor [] (setInputRange (160, - 40) (loaded smallSeries)) 60 DOUBLE)
       = fst (interpolateColor [] (setInputRange (0, 1) (loaded smallSeries)) (1 / 2) DOUBLE)
   \<and> js_le (js_div (js_sub (Num 0) (Num 160)) (js_sub (Num (- 40)) (Num 160)))
            (js_div (js_sub (Num (- 20)) (Num 160)) (js_sub (Num (- 40)) (Num 160)))
   \<and> ((0 - 160) / (- 40 - 160) :: real) < (- 20 - 160) / (- 40 - 160)"
proof -
  let ?xs = "[0, 2 / 10, 4 / 10, 6 / 10, 8 / 10, 1 :: real]"
  have s: "x_values (loaded smallSeries) = Some ?xs"
      "r_values (loaded smallSeries) = Some [0, 2 / 10, 4 / 10, 6 / 10, 8 / 10, 1]"
      "g_values (loaded smallSeries) = Some [6 / 10, 4 / 10, 2 / 10, 2 / 10, 4 / 10, 6 / 10]"
      "b_values (loaded smallSeries)
         = Some [55 / 100, 54 / 100, 53 / 100, 52 / 100, 51 / 100, 50 / 100]"
    by (simp_all add: loaded_def newColorMap_def inputColorSeries_def smallSeries_def)
  have h: "?xs \<noteq> []"
      "length [0, 2 / 10, 4 / 10, 6 / 10, 8 / 10, 1 :: real] = length ?xs"
      "length [6 / 10, 4 / 10, 2 / 10, 2 / 10, 4 / 10, 6 / 10 :: real] = length ?xs"
      "length [55 / 100, 54 / 100, 53 / 100, 52 / 100, 51 / 100, 50 / 100 :: real] = length ?xs"
      "(- 40 :: real) < 160" "(160 :: real) - (- 40) < overflowBound"
    by (simp_all add: overflowBound_def)
  note t = inverted_range [OF s h]
  from t [THEN conjunct2, THEN conjunct1, of "[]" DOUBLE]
  have a: "interpolateColor [] (setInputRange (160, - 40) (loaded smallSeries)) 160 DOUBLE
     = (Inr (Channels [Num 0, Num (6 / 10), Num (55 / 100)]),
        setInputRange (160, - 40) (loaded smallSeries))"
    by (simp add: formatColor_def)
  from t [THEN conjunct2, THEN conjunct2, THEN conjunct1, of "[]" DOUBLE]
  have b: "interpolateColor [] (setInputRange (160, - 40) (loaded smallSeries)) (- 40) DOUBLE
     = (Inr (Channels [Num 1, Num (6 / 10), Num (50 / 100)]),
        setInputRange (160, - 40) (loaded smallSeries))"
    by (simp add: formatColor_def)
  have "\<bar>60 - 160 :: real\<bar> < overflowBound \<and> \<bar>(60 - 160) / (- 40 - 160) :: real\<bar> < overflowBound"
    by (simp add: overflowBound_def)
  from t [THEN conjunct2, THEN conjunct2, THEN conjunct2, THEN conjunct1, THEN mp, OF this,
      of "[]" DOUBLE]
  have c: "js_div (js_sub (Num 60) (Num 160)) (js_sub (Num (- 40)) (Num 160)) = Num (1 / 2)"
      "fst (interpolateColor [] (setInputRange (160, - 40) (loaded smallSeries)) 60 DOUBLE)
       = fst (interpolateColor [] (setInputRange (0, 1) (loaded smallSeries)) (1 / 2) DOUBLE)"
    by simp_all
  have "(- 20 :: real) \<le> 0" by simp
  note d = t [THEN conjunct2, THEN conjunct2, THEN conjunct2, THEN conjunct2, THEN conjunct1,
      THEN mp, OF this]
  have "(- 20 :: real) < 0" by simp
  note e = t [THEN conjunct2, THEN conjunct2, THEN conjunct2, THEN conjunct2, THEN conjunct2,
      THEN mp, OF this]
  show ?thesis
    by (intro conjI) (rule a, rule b, rule c(1), rule c(2), rule d, rule e)
qed


text \<open>
  C8. With the six-point series of the tests loaded and the input range set to
  [-40, 160], \<open>interpolateColor (-20, DOUBLE)\<close> returns (0.1, 0.5, 0.545): the value is
  mapped to the position 0.1, the search ends on the first two control points, and the
  result is their blend (in exact arithmetic).
\<close>

theorem remapped_range_scenario:
  "js_div (Num (- 20 - (- 40))) (Num (160 - (- 40))) = Num (1 / 10)
   \<and> scanLo [0, 2 / 10, 4 / 10, 6 / 10, 8 / 10, 1] (Num (1 / 10))
        (Math_ceil (js_mul (Num (1 / 10)) (Num 5))) = Num 0
   \<and> scanHi [0, 2 / 10, 4 / 10, 6 / 10, 8 / 10, 1] (Num (1 / 10)) (Num 5) (Num 0) = Num 1
   \<and> interpolateColor rainbow (setInputRange (- 40, 160) (loaded smallSeries)) (- 20) DOUBLE
       = (Inr (Channels [Num (1 / 10), Num (5 / 10), Num (545 / 1000)]),
          setInputRange (- 40, 160) (loaded smallSeries))"
  by (simp add: run smallSeries_def ceiling_half)

text \<open>
  C9. Claimed: loading by name fails with \<open>NotFound\<close> exactly when the name is not one
  of the names \<open>listColorSeries\<close> returns. The test of the code is
  \<open>name in ColorSeriesTable\<close>, which also holds for the property names the object
  inherits from \<open>Object.prototype\<close>. The name \<open>toString\<close> is not listed, yet loading it
  does not fail: the table gives a function, the loop over it runs no iteration, and the
  four sequences are replaced by empty ones. The rest of the claim holds: \<open>rainbow\<close> is
  loaded as by \<open>inputColorSeries\<close>, and \<open>NotFound\<close> is thrown exactly for the names that
  are neither listed nor inherited, before any field is assigned.
\<close>

theorem useColorSeries_inherited_name:
  "''toString'' \<notin> set (listColorSeries rainbow)
   \<and> useColorSeries rainbow ''toString'' this
       = (None, this\<lparr>x_values := Some [], r_values := Some [],
                      g_values := Some [], b_values := Some []\<rparr>)
   \<and> useColorSeries rainbow ''rainbow'' this = inputColorSeries rainbow this
   \<and> (fst (useColorSeries rainbow name this) = Some NotFound)
       = (name \<notin> set (listColorSeries rainbow) \<and> name \<notin> set ObjectPrototypeNames)"
  using inputColorSeries_error [of rainbow this] inputColorSeries_error [of "[]" this]
  by (auto simp: useColorSeries_def inTable_def ColorSeriesTable_def ObjectPrototypeNames_def
      listColorSeries_def Let_def inputColorSeries_def)

text \<open>
  C10. \<open>setInputRange\<close> leaves the four sequences as they are; \<open>inputColorSeries\<close> and
  \<open>useColorSeries\<close> leave the input range as it is; \<open>interpolateColor\<close> leaves the whole
  instance as it is when a series is loaded, and otherwise leaves it as the load of the
  built-in rainbow series does.
\<close>

theorem frame_conditions:
  "x_values (setInputRange rng this) = x_values this
   \<and> r_values (setInputRange rng this) = r_values this
   \<and> g_values (setInputRange rng this) = g_values this
   \<and> b_values (setInputRange rng this) = b_values this
   \<and> x_range (snd (inputColorSeries values this)) = x_range this
   \<and> x_range (snd (useColorSeries rainbow name this)) = x_range this
   \<and> snd (interpolateColor rainbow this val format)
       = (if x_values this = None then snd (inputColorSeries rainbow this) else this)"
  by (simp add: setInputRange_def interpolateColor_state 
        inputColorSeries_def useColorSeries_def Let_def split: prod.splits)


section \<open>Further properties\<close>


text \<open>
  The bracket search over a series that meets the invariants (at least two and fewer
  than 2^32 points, first position 0, last position 1, positions strictly increasing),
  for a position
  strictly between 0 and 1. Let \<open>s\<close> be the start index \<open>ceil (x * iMax)\<close> and
  \<open>(lo, hi)\<close> the bracket of \<open>x\<close>. The first loop ends at the smaller of \<open>s\<close> and \<open>lo\<close>,
  and the second loop, started there, ends at \<open>hi\<close>. So the search finds the bracket
  exactly when the start index is not below \<open>lo\<close>, which holds for evenly spaced
  positions.
\<close>

theorem bracket_search_characterised:
  assumes "sorted_wrt (<) xs" and "2 \<le> length xs" and "hd xs = 0" and "last xs = 1"
    and "0 < x" and "x < 1" and "length xs < 2 ^ 32"
  shows "\<exists>s lo hi. Math_ceil (js_mul (Num x) (Num (real (length xs) - 1))) = Num (real s)
       \<and> specBracket xs x = (lo, hi)
       \<and> xs ! lo \<le> x \<and> x \<le> xs ! hi \<and> (hi = lo \<or> hi = Suc lo) \<and> hi < length xs
       \<and> scanLo xs (Num x) (Num (real s)) = Num (real (min s lo))
       \<and> scanHi xs (Num x) (Num (real (length xs) - 1)) (Num (real (min s lo)))
           = Num (real hi)"
proof -
  let ?le = "length (takeWhile (\<lambda>p. p \<le> x) xs)"
  let ?lt = "length (takeWhile (\<lambda>p. p < x) xs)"
  have ne: "xs \<noteq> []" using assms(2) by auto
  have n: "0 < length xs" using ne by simp
  have x0: "xs ! 0 \<le> x" using assms(3,5) ne by (simp add: hd_conv_nth)
  have xl: "x \<le> last xs" using assms(4,6) by simp
  obtain s where s: "Math_ceil (js_mul (Num x) (Num (real (length xs) - 1))) = Num (real s)"
      "s < length xs"
    using seed_index [OF assms(5,6) ne assms(7)] by blast
  have br: "specBracket xs x = (?le - 1, ?lt)" by (simp add: specBracket_def)
  have le0: "0 < ?le" using takeWhile_le_index [OF assms(1) n, of x] x0 by simp
  have len: "?le \<le> length xs" by (rule length_takeWhile_le)
  then have lo_n: "?le - 1 < length xs" using n by linarith
  have lo: "xs ! (?le - 1) \<le> x"
    using takeWhile_le_index [OF assms(1) lo_n, of x] le0 by simp
  have "\<not> xs ! (length xs - 1) < x" using xl ne by (simp add: last_conv_nth)
  then have "\<not> length xs - 1 < ?lt"
    using takeWhile_less_index [OF assms(1), of "length xs - 1" x] n by simp
  then have hi_n: "?lt < length xs" using n by linarith
  have hi: "x \<le> xs ! ?lt"
    using takeWhile_less_index [OF assms(1) hi_n, of x] by simp
  have a: "?le - 1 \<le> ?lt"
  proof (rule ccontr)
    assume "\<not> ?le - 1 \<le> ?lt"
    then have c: "?lt < ?le - 1" by simp
    then have "xs ! ?lt < xs ! (?le - 1)"
      using assms(1) lo_n sorted_wrt_nth_less [of "(<)" xs ?lt "?le - 1"] by simp
    with lo hi show False by simp
  qed
  have b: "?lt \<le> ?le"
  proof (rule ccontr)
    assume "\<not> ?lt \<le> ?le"
    then have c: "?le < ?lt" by simp
    then have "?le < length xs" using hi_n by simp
    then have "xs ! ?le < x" "\<not> xs ! ?le \<le> x"
      using takeWhile_less_index [OF assms(1), of ?le x] takeWhile_le_index [OF assms(1), of ?le x] c
      by simp_all
    then show False by simp
  qed
  have adj: "?lt = ?le - 1 \<or> ?lt = Suc (?le - 1)" using a b le0 by linarith
  have l: "scanLo xs (Num x) (Num (real s)) = Num (real (min s (?le - 1)))"
    using scanLo_min [OF assms(1) ne x0 s(2) assms(7)] br by simp
  have "min s (?le - 1) \<le> snd (specBracket xs x)" using a br by simp
  from scanHi_first [OF assms(1) ne xl this assms(7)]
  have h: "scanHi xs (Num x) (Num (real (length xs) - 1)) (Num (real (min s (?le - 1))))
      = Num (real ?lt)"
    using br by simp
  show ?thesis
    using s(1) br lo hi adj hi_n l h by blast
qed

theorem bracket_search_characterised_witness:
  "\<exists>s lo hi. Math_ceil (js_mul (Num (1 / 2)) (Num (real (length [0, 1 / 16, 1 / 8, 3 / 16, 1 / 4, 1 :: real]) - 1)))
         = Num (real s)
       \<and> specBracket [0, 1 / 16, 1 / 8, 3 / 16, 1 / 4, 1] (1 / 2) = (lo, hi)
       \<and> [0, 1 / 16, 1 / 8, 3 / 16, 1 / 4, 1] ! lo \<le> (1 / 2 :: real)
       \<and> (1 / 2 :: real) \<le> [0, 1 / 16, 1 / 8, 3 / 16, 1 / 4, 1] ! hi
       \<and> (hi = lo \<or> hi = Suc lo) \<and> hi < length [0, 1 / 16, 1 / 8, 3 / 16, 1 / 4, 1 :: real]
       \<and> scanLo [0, 1 / 16, 1 / 8, 3 / 16, 1 / 4, 1] (Num (1 / 2)) (Num (real s))
           = Num (real (min s lo))
       \<and> scanHi [0, 1 / 16, 1 / 8, 3 / 16, 1 / 4, 1] (Num (1 / 2))
            (Num (real (length [0, 1 / 16, 1 / 8, 3 / 16, 1 / 4, 1 :: real]) - 1))
            (Num (real (min s lo))) = Num (real hi)"
  by (rule bracket_search_characterised) simp_all


text \<open>
  The scenarios of the tests on the six-point series with the default range: a value
  below the range, a value above it, the midpoint of two control points, an RGB
  output and a HEX output on an exact hit.
\<close>

theorem small_series_scenarios:
  "fst (interpolateColor rainbow (loaded smallSeries) (- 1 / 10) DOUBLE)
     = Inr (Channels [Num 0, Num (60 / 100), Num (55 / 100)])
   \<and> fst (interpolateColor rainbow (loaded smallSeries) (11 / 10) DOUBLE)
     = Inr (Channels [Num 1, Num (60 / 100), Num (50 / 100)])
   \<and> fst (interpolateColor rainbow (loaded smallSeries) (5 / 10) DOUBLE)
     = Inr (Channels [Num (5 / 10), Num (2 / 10), Num (525 / 1000)])
   \<and> fst (interpolateColor rainbow (loaded smallSeries) (3 / 10) RGB)
     = Inr (Channels [Num 77, Num 77, Num 136])
   \<and> fst (interpolateColor rainbow (loaded smallSeries) (6 / 10) HEX)
     = Inr (HexString ''#993385'')"
  by (simp add: run smallSeries_def slice2_def hexNat.simps hexDigit_def)

end
